theory Spec2Isabelle
  imports Complex_Main "HOL-Library.Word" "HOL-Library.Log_Nat"
begin

unbundle bit_operations_syntax

section \<open>Conventions of the embedding\<close>

text \<open>
  The development embeds the safety and timing engine of \<^verbatim>\<open>src/index.ts\<close>
  (class \<^verbatim>\<open>XSafePost\<close>).

  \<^item> Instants (\<^verbatim>\<open>Date.now()\<close>, stored timestamps) are integers: milliseconds since
    the epoch. The daily counter and the integer-valued settings (the command line reads
    them with \<^verbatim>\<open>parseInt\<close>) are integers too, and so are the differences of
    instants that make up a delay: the code holds them in doubles, which are exact on
    integers up to 2 to the power 53.
  \<^item> The jitter is computed in doubles. Every multiplication and the sum that adds it to
    the delay are rounded to the nearest double, ties to even, as IEEE 754 has it; a
    double is the real number it denotes. Overflow, which would take a delay of more than
    10 to the power 300 milliseconds, is left out.
  \<^item> The similarity score is the exact quotient of two set sizes. The code rounds the
    quotient to a double and compares it with the double nearest to 0.8; rounding is
    monotone, and the two comparisons differ for no union of fewer than 2 to the power 50
    words.
  \<^item> A text is held as the bytes of its UTF-8 encoding; case folding and the whitespace
    class \<^verbatim>\<open>\s\<close> are those of Unicode, on the code points of the text.
  \<^item> One call of a method sees one instant: every \<^verbatim>\<open>Date.now()\<close> and
    \<^verbatim>\<open>new Date()\<close> inside it reads the same clock value, passed in as an
    environment together with the offset of local time and the value that
    \<^verbatim>\<open>Math.random()\<close> returns.
  \<^item> The persistent \<^verbatim>\<open>Conf\<close> store is a record passed in and returned updated.
  \<^item> Messages built from template literals are constructors carrying the interpolated
    values.
\<close>

section \<open>Texts\<close>

text \<open>
  A text of the source is a JavaScript string. It is held here as the bytes of its UTF-8
  encoding (a \<open>string\<close>, so that an ASCII text is written as it reads), and the string
  methods work on its Unicode code points. The texts meant are well-formed ones: a byte
  sequence that is not UTF-8 decodes with replacement characters, as a decoder would do.
\<close>

subsection \<open>UTF-8\<close>

definition isCont :: "int \<Rightarrow> bool" where
  "isCont b = (0x80 \<le> b \<and> b < 0xC0)"

text \<open>The decoder reads byte by byte; its state is the number of continuation bytes still
  due and the bits gathered so far.\<close>

fun decodeFrom :: "nat \<Rightarrow> int \<Rightarrow> int list \<Rightarrow> int list" where
  "decodeFrom 0 acc [] = []"
| "decodeFrom (Suc n) acc [] = [0xFFFD]"
| "decodeFrom 0 acc (b # bs) =
     (if 0 \<le> b \<and> b < 0x80 then b # decodeFrom 0 0 bs
      else if 0xC0 \<le> b \<and> b < 0xE0 then decodeFrom 1 (b - 0xC0) bs
      else if 0xE0 \<le> b \<and> b < 0xF0 then decodeFrom 2 (b - 0xE0) bs
      else if 0xF0 \<le> b \<and> b < 0xF8 then decodeFrom 3 (b - 0xF0) bs
      else 0xFFFD # decodeFrom 0 0 bs)"
| "decodeFrom (Suc n) acc (b # bs) =
     (if isCont b
      then (if n = 0 then (acc * 64 + (b - 0x80)) # decodeFrom 0 0 bs
            else decodeFrom n (acc * 64 + (b - 0x80)) bs)
      else 0xFFFD # decodeFrom 0 0 (b # bs))"

definition codePoints :: "string \<Rightarrow> int list" where
  "codePoints s = decodeFrom 0 0 (map of_char s)"

definition encodeCp :: "int \<Rightarrow> int list" where
  "encodeCp c =
     (if c < 0x80 then [c]
      else if c < 0x800 then [0xC0 + c div 64, 0x80 + c mod 64]
      else if c < 0x10000 then [0xE0 + c div 4096, 0x80 + c div 64 mod 64, 0x80 + c mod 64]
      else [0xF0 + c div 262144, 0x80 + c div 4096 mod 64, 0x80 + c div 64 mod 64,
            0x80 + c mod 64])"

definition utf8 :: "int list \<Rightarrow> string" where
  "utf8 cps = map char_of (concat (map encodeCp cps))"

subsection \<open>Character classes\<close>

text \<open>The class \<^verbatim>\<open>\s\<close> of a regular expression, which is also what \<^verbatim>\<open>trim\<close>
  strips: the white space and the line terminators of ECMAScript.\<close>

definition isSpace :: "int \<Rightarrow> bool" where
  "isSpace c =
     ((0x09 \<le> c \<and> c \<le> 0x0D) \<or> c = 0x20 \<or> c = 0xA0 \<or> c = 0x1680
      \<or> (0x2000 \<le> c \<and> c \<le> 0x200A) \<or> c = 0x2028 \<or> c = 0x2029 \<or> c = 0x202F
      \<or> c = 0x205F \<or> c = 0x3000 \<or> c = 0xFEFF)"

text \<open>The class \<^verbatim>\<open>\w\<close>: ASCII letters, digits and the underscore. These are single
  bytes of the encoding, and no byte of a longer sequence is one of them.\<close>

definition isWordChar :: "char \<Rightarrow> bool" where
  "isWordChar c =
     (c \<in> set ''abcdefghijklmnopqrstuvwxyzABCDEFGHIJKLMNOPQRSTUVWXYZ0123456789_'')"

subsection \<open>Lower case\<close>

text \<open>
  \<^verbatim>\<open>String.prototype.toLowerCase\<close> is the full lower-case mapping of the Unicode
  standard. The tables are those of Unicode 14.0. A run \<open>(lo, hi, step, d)\<close> sends
  every \<open>step\<close>-th code point from \<open>lo\<close> to \<open>hi\<close> to itself plus \<open>d\<close>; the runs are
  ordered by \<open>lo\<close>.
\<close>

definition lowerRuns :: "(int \<times> int \<times> int \<times> int) list" where
  "lowerRuns =
    [(65, 90, 1, 32), (192, 214, 1, 32), (216, 222, 1, 32), (256, 302, 2, 1),
     (306, 310, 2, 1), (313, 327, 2, 1), (330, 374, 2, 1), (376, 376, 1, -121),
     (377, 381, 2, 1), (385, 385, 1, 210), (386, 388, 2, 1), (390, 390, 1, 206),
     (391, 391, 1, 1), (393, 394, 1, 205), (395, 395, 1, 1), (398, 398, 1, 79),
     (399, 399, 1, 202), (400, 400, 1, 203), (401, 401, 1, 1), (403, 403, 1, 205),
     (404, 404, 1, 207), (406, 406, 1, 211), (407, 407, 1, 209), (408, 408, 1, 1),
     (412, 412, 1, 211), (413, 413, 1, 213), (415, 415, 1, 214), (416, 420, 2, 1),
     (422, 422, 1, 218), (423, 423, 1, 1), (425, 425, 1, 218), (428, 428, 1, 1),
     (430, 430, 1, 218), (431, 431, 1, 1), (433, 434, 1, 217), (435, 437, 2, 1),
     (439, 439, 1, 219), (440, 440, 1, 1), (444, 444, 1, 1), (452, 452, 1, 2),
     (453, 453, 1, 1), (455, 455, 1, 2), (456, 456, 1, 1), (458, 458, 1, 2),
     (459, 475, 2, 1), (478, 494, 2, 1), (497, 497, 1, 2), (498, 500, 2, 1),
     (502, 502, 1, -97), (503, 503, 1, -56), (504, 542, 2, 1), (544, 544, 1, -130),
     (546, 562, 2, 1), (570, 570, 1, 10795), (571, 571, 1, 1), (573, 573, 1, -163),
     (574, 574, 1, 10792), (577, 577, 1, 1), (579, 579, 1, -195), (580, 580, 1, 69),
     (581, 581, 1, 71), (582, 590, 2, 1), (880, 882, 2, 1), (886, 886, 1, 1),
     (895, 895, 1, 116), (902, 902, 1, 38), (904, 906, 1, 37), (908, 908, 1, 64),
     (910, 911, 1, 63), (913, 929, 1, 32), (931, 939, 1, 32), (975, 975, 1, 8),
     (984, 1006, 2, 1), (1012, 1012, 1, -60), (1015, 1015, 1, 1), (1017, 1017, 1, -7),
     (1018, 1018, 1, 1), (1021, 1023, 1, -130), (1024, 1039, 1, 80), (1040, 1071, 1, 32),
     (1120, 1152, 2, 1), (1162, 1214, 2, 1), (1216, 1216, 1, 15), (1217, 1229, 2, 1),
     (1232, 1326, 2, 1), (1329, 1366, 1, 48), (4256, 4293, 1, 7264), (4295, 4295, 1, 7264),
     (4301, 4301, 1, 7264), (5024, 5103, 1, 38864), (5104, 5109, 1, 8), (7312, 7354, 1, -3008),
     (7357, 7359, 1, -3008), (7680, 7828, 2, 1), (7838, 7838, 1, -7615), (7840, 7934, 2, 1),
     (7944, 7951, 1, -8), (7960, 7965, 1, -8), (7976, 7983, 1, -8), (7992, 7999, 1, -8),
     (8008, 8013, 1, -8), (8025, 8031, 2, -8), (8040, 8047, 1, -8), (8072, 8079, 1, -8),
     (8088, 8095, 1, -8), (8104, 8111, 1, -8), (8120, 8121, 1, -8), (8122, 8123, 1, -74),
     (8124, 8124, 1, -9), (8136, 8139, 1, -86), (8140, 8140, 1, -9), (8152, 8153, 1, -8),
     (8154, 8155, 1, -100), (8168, 8169, 1, -8), (8170, 8171, 1, -112), (8172, 8172, 1, -7),
     (8184, 8185, 1, -128), (8186, 8187, 1, -126), (8188, 8188, 1, -9), (8486, 8486, 1, -7517),
     (8490, 8490, 1, -8383), (8491, 8491, 1, -8262), (8498, 8498, 1, 28), (8544, 8559, 1, 16),
     (8579, 8579, 1, 1), (9398, 9423, 1, 26), (11264, 11311, 1, 48), (11360, 11360, 1, 1),
     (11362, 11362, 1, -10743), (11363, 11363, 1, -3814), (11364, 11364, 1, -10727), (11367, 11371, 2, 1),
     (11373, 11373, 1, -10780), (11374, 11374, 1, -10749), (11375, 11375, 1, -10783), (11376, 11376, 1, -10782),
     (11378, 11378, 1, 1), (11381, 11381, 1, 1), (11390, 11391, 1, -10815), (11392, 11490, 2, 1),
     (11499, 11501, 2, 1), (11506, 11506, 1, 1), (42560, 42604, 2, 1), (42624, 42650, 2, 1),
     (42786, 42798, 2, 1), (42802, 42862, 2, 1), (42873, 42875, 2, 1), (42877, 42877, 1, -35332),
     (42878, 42886, 2, 1), (42891, 42891, 1, 1), (42893, 42893, 1, -42280), (42896, 42898, 2, 1),
     (42902, 42920, 2, 1), (42922, 42922, 1, -42308), (42923, 42923, 1, -42319), (42924, 42924, 1, -42315),
     (42925, 42925, 1, -42305), (42926, 42926, 1, -42308), (42928, 42928, 1, -42258), (42929, 42929, 1, -42282),
     (42930, 42930, 1, -42261), (42931, 42931, 1, 928), (42932, 42946, 2, 1), (42948, 42948, 1, -48),
     (42949, 42949, 1, -42307), (42950, 42950, 1, -35384), (42951, 42953, 2, 1), (42960, 42960, 1, 1),
     (42966, 42968, 2, 1), (42997, 42997, 1, 1), (65313, 65338, 1, 32), (66560, 66599, 1, 40),
     (66736, 66771, 1, 40), (66928, 66938, 1, 39), (66940, 66954, 1, 39), (66956, 66962, 1, 39),
     (66964, 66965, 1, 39), (68736, 68786, 1, 64), (71840, 71871, 1, 32), (93760, 93791, 1, 32),
     (125184, 125217, 1, 34)]"

text \<open>The case-ignorable code points, and the cased ones that are not case-ignorable, as
  ranges in ascending order.\<close>

definition caseIgnorableRanges :: "(int \<times> int) list" where
  "caseIgnorableRanges =
    [(39, 39), (46, 46), (58, 58), (94, 94), (96, 96), (168, 168),
     (173, 173), (175, 175), (180, 180), (183, 184), (688, 879), (884, 885),
     (890, 890), (900, 901), (903, 903), (1155, 1161), (1369, 1369), (1375, 1375),
     (1425, 1469), (1471, 1471), (1473, 1474), (1476, 1477), (1479, 1479), (1524, 1524),
     (1536, 1541), (1552, 1562), (1564, 1564), (1600, 1600), (1611, 1631), (1648, 1648),
     (1750, 1757), (1759, 1768), (1770, 1773), (1807, 1807), (1809, 1809), (1840, 1866),
     (1958, 1968), (2027, 2037), (2042, 2042), (2045, 2045), (2070, 2093), (2137, 2139),
     (2184, 2184), (2192, 2193), (2200, 2207), (2249, 2306), (2362, 2362), (2364, 2364),
     (2369, 2376), (2381, 2381), (2385, 2391), (2402, 2403), (2417, 2417), (2433, 2433),
     (2492, 2492), (2497, 2500), (2509, 2509), (2530, 2531), (2558, 2558), (2561, 2562),
     (2620, 2620), (2625, 2626), (2631, 2632), (2635, 2637), (2641, 2641), (2672, 2673),
     (2677, 2677), (2689, 2690), (2748, 2748), (2753, 2757), (2759, 2760), (2765, 2765),
     (2786, 2787), (2810, 2815), (2817, 2817), (2876, 2876), (2879, 2879), (2881, 2884),
     (2893, 2893), (2901, 2902), (2914, 2915), (2946, 2946), (3008, 3008), (3021, 3021),
     (3072, 3072), (3076, 3076), (3132, 3132), (3134, 3136), (3142, 3144), (3146, 3149),
     (3157, 3158), (3170, 3171), (3201, 3201), (3260, 3260), (3263, 3263), (3270, 3270),
     (3276, 3277), (3298, 3299), (3328, 3329), (3387, 3388), (3393, 3396), (3405, 3405),
     (3426, 3427), (3457, 3457), (3530, 3530), (3538, 3540), (3542, 3542), (3633, 3633),
     (3636, 3642), (3654, 3662), (3761, 3761), (3764, 3772), (3782, 3782), (3784, 3789),
     (3864, 3865), (3893, 3893), (3895, 3895), (3897, 3897), (3953, 3966), (3968, 3972),
     (3974, 3975), (3981, 3991), (3993, 4028), (4038, 4038), (4141, 4144), (4146, 4151),
     (4153, 4154), (4157, 4158), (4184, 4185), (4190, 4192), (4209, 4212), (4226, 4226),
     (4229, 4230), (4237, 4237), (4253, 4253), (4348, 4348), (4957, 4959), (5906, 5908),
     (5938, 5939), (5970, 5971), (6002, 6003), (6068, 6069), (6071, 6077), (6086, 6086),
     (6089, 6099), (6103, 6103), (6109, 6109), (6155, 6159), (6211, 6211), (6277, 6278),
     (6313, 6313), (6432, 6434), (6439, 6440), (6450, 6450), (6457, 6459), (6679, 6680),
     (6683, 6683), (6742, 6742), (6744, 6750), (6752, 6752), (6754, 6754), (6757, 6764),
     (6771, 6780), (6783, 6783), (6823, 6823), (6832, 6862), (6912, 6915), (6964, 6964),
     (6966, 6970), (6972, 6972), (6978, 6978), (7019, 7027), (7040, 7041), (7074, 7077),
     (7080, 7081), (7083, 7085), (7142, 7142), (7144, 7145), (7149, 7149), (7151, 7153),
     (7212, 7219), (7222, 7223), (7288, 7293), (7376, 7378), (7380, 7392), (7394, 7400),
     (7405, 7405), (7412, 7412), (7416, 7417), (7468, 7530), (7544, 7544), (7579, 7679),
     (8125, 8125), (8127, 8129), (8141, 8143), (8157, 8159), (8173, 8175), (8189, 8190),
     (8203, 8207), (8216, 8217), (8228, 8228), (8231, 8231), (8234, 8238), (8288, 8292),
     (8294, 8303), (8305, 8305), (8319, 8319), (8336, 8348), (8400, 8432), (11388, 11389),
     (11503, 11505), (11631, 11631), (11647, 11647), (11744, 11775), (11823, 11823), (12293, 12293),
     (12330, 12333), (12337, 12341), (12347, 12347), (12441, 12446), (12540, 12542), (40981, 40981),
     (42232, 42237), (42508, 42508), (42607, 42610), (42612, 42621), (42623, 42623), (42652, 42655),
     (42736, 42737), (42752, 42785), (42864, 42864), (42888, 42890), (42994, 42996), (43000, 43001),
     (43010, 43010), (43014, 43014), (43019, 43019), (43045, 43046), (43052, 43052), (43204, 43205),
     (43232, 43249), (43263, 43263), (43302, 43309), (43335, 43345), (43392, 43394), (43443, 43443),
     (43446, 43449), (43452, 43453), (43471, 43471), (43493, 43494), (43561, 43566), (43569, 43570),
     (43573, 43574), (43587, 43587), (43596, 43596), (43632, 43632), (43644, 43644), (43696, 43696),
     (43698, 43700), (43703, 43704), (43710, 43711), (43713, 43713), (43741, 43741), (43756, 43757),
     (43763, 43764), (43766, 43766), (43867, 43871), (43881, 43883), (44005, 44005), (44008, 44008),
     (44013, 44013), (64286, 64286), (64434, 64450), (65024, 65039), (65043, 65043), (65056, 65071),
     (65106, 65106), (65109, 65109), (65279, 65279), (65287, 65287), (65294, 65294), (65306, 65306),
     (65342, 65342), (65344, 65344), (65392, 65392), (65438, 65439), (65507, 65507), (65529, 65531),
     (66045, 66045), (66272, 66272), (66422, 66426), (67456, 67461), (67463, 67504), (67506, 67514),
     (68097, 68099), (68101, 68102), (68108, 68111), (68152, 68154), (68159, 68159), (68325, 68326),
     (68900, 68903), (69291, 69292), (69446, 69456), (69506, 69509), (69633, 69633), (69688, 69702),
     (69744, 69744), (69747, 69748), (69759, 69761), (69811, 69814), (69817, 69818), (69821, 69821),
     (69826, 69826), (69837, 69837), (69888, 69890), (69927, 69931), (69933, 69940), (70003, 70003),
     (70016, 70017), (70070, 70078), (70089, 70092), (70095, 70095), (70191, 70193), (70196, 70196),
     (70198, 70199), (70206, 70206), (70367, 70367), (70371, 70378), (70400, 70401), (70459, 70460),
     (70464, 70464), (70502, 70508), (70512, 70516), (70712, 70719), (70722, 70724), (70726, 70726),
     (70750, 70750), (70835, 70840), (70842, 70842), (70847, 70848), (70850, 70851), (71090, 71093),
     (71100, 71101), (71103, 71104), (71132, 71133), (71219, 71226), (71229, 71229), (71231, 71232),
     (71339, 71339), (71341, 71341), (71344, 71349), (71351, 71351), (71453, 71455), (71458, 71461),
     (71463, 71467), (71727, 71735), (71737, 71738), (71995, 71996), (71998, 71998), (72003, 72003),
     (72148, 72151), (72154, 72155), (72160, 72160), (72193, 72202), (72243, 72248), (72251, 72254),
     (72263, 72263), (72273, 72278), (72281, 72283), (72330, 72342), (72344, 72345), (72752, 72758),
     (72760, 72765), (72767, 72767), (72850, 72871), (72874, 72880), (72882, 72883), (72885, 72886),
     (73009, 73014), (73018, 73018), (73020, 73021), (73023, 73029), (73031, 73031), (73104, 73105),
     (73109, 73109), (73111, 73111), (73459, 73460), (78896, 78904), (92912, 92916), (92976, 92982),
     (92992, 92995), (94031, 94031), (94095, 94111), (94176, 94177), (94179, 94180), (110576, 110579),
     (110581, 110587), (110589, 110590), (113821, 113822), (113824, 113827), (118528, 118573), (118576, 118598),
     (119143, 119145), (119155, 119170), (119173, 119179), (119210, 119213), (119362, 119364), (121344, 121398),
     (121403, 121452), (121461, 121461), (121476, 121476), (121499, 121503), (121505, 121519), (122880, 122886),
     (122888, 122904), (122907, 122913), (122915, 122916), (122918, 122922), (123184, 123197), (123566, 123566),
     (123628, 123631), (125136, 125142), (125252, 125259), (127995, 127999), (917505, 917505), (917536, 917631),
     (917760, 917999)]"

definition casedRanges :: "(int \<times> int) list" where
  "casedRanges =
    [(65, 90), (97, 122), (170, 170), (181, 181), (186, 186), (192, 214),
     (216, 246), (248, 442), (444, 447), (452, 659), (661, 687), (880, 883),
     (886, 887), (891, 893), (895, 895), (902, 902), (904, 906), (908, 908),
     (910, 929), (931, 1013), (1015, 1153), (1162, 1327), (1329, 1366), (1376, 1416),
     (4256, 4293), (4295, 4295), (4301, 4301), (4304, 4346), (4349, 4351), (5024, 5109),
     (5112, 5117), (7296, 7304), (7312, 7354), (7357, 7359), (7424, 7467), (7531, 7543),
     (7545, 7578), (7680, 7957), (7960, 7965), (7968, 8005), (8008, 8013), (8016, 8023),
     (8025, 8025), (8027, 8027), (8029, 8029), (8031, 8061), (8064, 8116), (8118, 8124),
     (8126, 8126), (8130, 8132), (8134, 8140), (8144, 8147), (8150, 8155), (8160, 8172),
     (8178, 8180), (8182, 8188), (8450, 8450), (8455, 8455), (8458, 8467), (8469, 8469),
     (8473, 8477), (8484, 8484), (8486, 8486), (8488, 8488), (8490, 8493), (8495, 8500),
     (8505, 8505), (8508, 8511), (8517, 8521), (8526, 8526), (8544, 8575), (8579, 8580),
     (9398, 9449), (11264, 11387), (11390, 11492), (11499, 11502), (11506, 11507), (11520, 11557),
     (11559, 11559), (11565, 11565), (42560, 42605), (42624, 42651), (42786, 42863), (42865, 42887),
     (42891, 42894), (42896, 42954), (42960, 42961), (42963, 42963), (42965, 42969), (42997, 42998),
     (43002, 43002), (43824, 43866), (43872, 43880), (43888, 43967), (64256, 64262), (64275, 64279),
     (65313, 65338), (65345, 65370), (66560, 66639), (66736, 66771), (66776, 66811), (66928, 66938),
     (66940, 66954), (66956, 66962), (66964, 66965), (66967, 66977), (66979, 66993), (66995, 67001),
     (67003, 67004), (68736, 68786), (68800, 68850), (71840, 71903), (93760, 93823), (119808, 119892),
     (119894, 119964), (119966, 119967), (119970, 119970), (119973, 119974), (119977, 119980), (119982, 119993),
     (119995, 119995), (119997, 120003), (120005, 120069), (120071, 120074), (120077, 120084), (120086, 120092),
     (120094, 120121), (120123, 120126), (120128, 120132), (120134, 120134), (120138, 120144), (120146, 120485),
     (120488, 120512), (120514, 120538), (120540, 120570), (120572, 120596), (120598, 120628), (120630, 120654),
     (120656, 120686), (120688, 120712), (120714, 120744), (120746, 120770), (120772, 120779), (122624, 122633),
     (122635, 122654), (125184, 125251), (127280, 127305), (127312, 127337), (127344, 127369)]"

fun lookupRun :: "(int \<times> int \<times> int \<times> int) list \<Rightarrow> int \<Rightarrow> int" where
  "lookupRun [] c = c"
| "lookupRun ((lo, hi, step, d) # runs) c =
     (if c < lo then c
      else if c \<le> hi \<and> (c - lo) mod step = 0 then c + d
      else lookupRun runs c)"

fun inRanges :: "(int \<times> int) list \<Rightarrow> int \<Rightarrow> bool" where
  "inRanges [] c = False"
| "inRanges ((lo, hi) # ranges) c =
     (if c < lo then False else if c \<le> hi then True else inRanges ranges c)"

text \<open>Below U+00C0 only the letters A to Z change. U+0130 is the one code point with a
  lower case of two code points.\<close>

definition lowerCp :: "int \<Rightarrow> int list" where
  "lowerCp c =
     (if c < 0xC0 then (if 0x41 \<le> c \<and> c \<le> 0x5A then [c + 32] else [c])
      else if c = 0x130 then [0x69, 0x307]
      else [lookupRun lowerRuns c])"

text \<open>The capital sigma becomes the final sigma when a cased letter stands before it and
  none after it, case-ignorable characters skipped on both sides.\<close>

fun nextIsCased :: "int list \<Rightarrow> bool" where
  "nextIsCased [] = False"
| "nextIsCased (c # cs) =
     (if inRanges caseIgnorableRanges c then nextIsCased cs else inRanges casedRanges c)"

fun lowerFrom :: "int list \<Rightarrow> int list \<Rightarrow> int list" where
  "lowerFrom seen [] = []"
| "lowerFrom seen (c # cs) =
     (if c = 0x3A3
      then (if nextIsCased seen \<and> \<not> nextIsCased cs then 0x3C2 else 0x3C3)
             # lowerFrom (c # seen) cs
      else lowerCp c @ lowerFrom (c # seen) cs)"

definition toLowerCase :: "int list \<Rightarrow> int list" where
  "toLowerCase cps = lowerFrom [] cps"

text \<open>The flag \<^verbatim>\<open>i\<close> of a regular expression without the flag \<^verbatim>\<open>u\<close> lets a
  letter of the pattern match its other case, and never lets a character beyond ASCII
  match an ASCII one, so on the bytes it folds A to Z and nothing else.\<close>

definition asciiLower :: "char \<Rightarrow> char" where
  "asciiLower c =
     (case map_of (zip ''ABCDEFGHIJKLMNOPQRSTUVWXYZ'' ''abcdefghijklmnopqrstuvwxyz'') c of
        None \<Rightarrow> c
      | Some l \<Rightarrow> l)"

subsection \<open>Methods on whitespace\<close>

text \<open>\<^verbatim>\<open>s.replace(/\s+/g, ' ')\<close>: every maximal run of whitespace becomes one space.
  The flag says whether the previous character belonged to a run.\<close>

fun replaceWs :: "bool \<Rightarrow> int list \<Rightarrow> int list" where
  "replaceWs inRun [] = []"
| "replaceWs inRun (c # cs) =
     (if isSpace c then (if inRun then replaceWs True cs else 0x20 # replaceWs True cs)
      else c # replaceWs False cs)"

definition trim :: "int list \<Rightarrow> int list" where
  "trim s = rev (dropWhile isSpace (rev (dropWhile isSpace s)))"

text \<open>\<^verbatim>\<open>s.split(/\s+/)\<close>: the pieces between maximal runs of whitespace. A run at
  the start or at the end leaves an empty piece there, and the empty text splits into
  one empty piece, so the result is never the empty list.\<close>

fun splitWsFrom :: "bool \<Rightarrow> int list \<Rightarrow> int list \<Rightarrow> int list list" where
  "splitWsFrom inRun cur [] = [cur]"
| "splitWsFrom inRun cur (c # cs) =
     (if isSpace c then (if inRun then splitWsFrom True [] cs else cur # splitWsFrom True [] cs)
      else splitWsFrom False (cur @ [c]) cs)"

definition splitWs :: "int list \<Rightarrow> int list list" where
  "splitWs s = splitWsFrom False [] s"

subsection \<open>Patterns\<close>

text \<open>\<^verbatim>\<open>(text.match(/#\w+/g) || []).length\<close> with the marker \<^verbatim>\<open>#\<close> or
  \<^verbatim>\<open>@\<close>: the marker is not a word character, so the matches are exactly the
  positions where the marker is followed by a word character.\<close>

fun countMarked :: "char \<Rightarrow> string \<Rightarrow> nat" where
  "countMarked m (c # d # cs) =
     (if c = m \<and> isWordChar d then 1 else 0) + countMarked m (d # cs)"
| "countMarked m cs = 0"

fun containsStr :: "string \<Rightarrow> string \<Rightarrow> bool" where
  "containsStr p [] = (p = [])"
| "containsStr p (c # cs) = (take (length p) (c # cs) = p \<or> containsStr p cs)"

text \<open>\<^verbatim>\<open>/bit\.ly|tinyurl|t\.co|goo\.gl|ow\.ly/i.test(text)\<close>\<close>

definition hasUrlShortener :: "string \<Rightarrow> bool" where
  "hasUrlShortener s =
     (\<exists>p \<in> set [''bit.ly'', ''tinyurl'', ''t.co'', ''goo.gl'', ''ow.ly''].
        containsStr p (map asciiLower s))"

section \<open>The MD5 digest\<close>

text \<open>\<^verbatim>\<open>crypto.createHash('md5').update(s).digest('hex')\<close> of the platform library,
  after RFC 1321, on the bytes of the encoded text: bytes are integers, the four chaining
  values are 32-bit words.\<close>

definition md5_K :: "32 word list" where
  "md5_K = [
    0xd76aa478, 0xe8c7b756, 0x242070db, 0xc1bdceee,
    0xf57c0faf, 0x4787c62a, 0xa8304613, 0xfd469501,
    0x698098d8, 0x8b44f7af, 0xffff5bb1, 0x895cd7be,
    0x6b901122, 0xfd987193, 0xa679438e, 0x49b40821,
    0xf61e2562, 0xc040b340, 0x265e5a51, 0xe9b6c7aa,
    0xd62f105d, 0x02441453, 0xd8a1e681, 0xe7d3fbc8,
    0x21e1cde6, 0xc33707d6, 0xf4d50d87, 0x455a14ed,
    0xa9e3e905, 0xfcefa3f8, 0x676f02d9, 0x8d2a4c8a,
    0xfffa3942, 0x8771f681, 0x6d9d6122, 0xfde5380c,
    0xa4beea44, 0x4bdecfa9, 0xf6bb4b60, 0xbebfbc70,
    0x289b7ec6, 0xeaa127fa, 0xd4ef3085, 0x04881d05,
    0xd9d4d039, 0xe6db99e5, 0x1fa27cf8, 0xc4ac5665,
    0xf4292244, 0x432aff97, 0xab9423a7, 0xfc93a039,
    0x655b59c3, 0x8f0ccc92, 0xffeff47d, 0x85845dd1,
    0x6fa87e4f, 0xfe2ce6e0, 0xa3014314, 0x4e0811a1,
    0xf7537e82, 0xbd3af235, 0x2ad7d2bb, 0xeb86d391]"

definition md5_S :: "nat list" where
  "md5_S = [7, 12, 17, 22, 7, 12, 17, 22, 7, 12, 17, 22, 7, 12, 17, 22,
            5, 9, 14, 20, 5, 9, 14, 20, 5, 9, 14, 20, 5, 9, 14, 20,
            4, 11, 16, 23, 4, 11, 16, 23, 4, 11, 16, 23, 4, 11, 16, 23,
            6, 10, 15, 21, 6, 10, 15, 21, 6, 10, 15, 21, 6, 10, 15, 21]"

definition md5_pad :: "int list \<Rightarrow> int list" where
  "md5_pad bs = bs @ [128] @ replicate ((119 - length bs mod 64) mod 64) 0
                  @ map (\<lambda>i. (8 * int (length bs)) div 256 ^ i mod 256) [0..<8]"

definition le32 :: "int list \<Rightarrow> 32 word" where
  "le32 bs = of_int (foldr (\<lambda>b acc. b + 256 * acc) bs 0)"

definition md5_words :: "int list \<Rightarrow> 32 word list" where
  "md5_words blk = map (\<lambda>j. le32 (take 4 (drop (4 * j) blk))) [0..<16]"

type_synonym md5_state = "32 word \<times> 32 word \<times> 32 word \<times> 32 word"

definition md5_step :: "32 word list \<Rightarrow> nat \<Rightarrow> md5_state \<Rightarrow> md5_state" where
  "md5_step M i st = (case st of (a, b, c, d) \<Rightarrow>
     let f = (if i < 16 then (b AND c) OR (NOT b AND d)
              else if i < 32 then (d AND b) OR (NOT d AND c)
              else if i < 48 then b XOR c XOR d
              else c XOR (b OR NOT d));
         g = (if i < 16 then i
              else if i < 32 then (5 * i + 1) mod 16
              else if i < 48 then (3 * i + 5) mod 16
              else (7 * i) mod 16);
         f' = f + a + md5_K ! i + M ! g
     in (d, b + word_rotl (md5_S ! i) f', b, c))"

definition md5_block :: "int list \<Rightarrow> md5_state \<Rightarrow> md5_state" where
  "md5_block blk st = (case st of (a0, b0, c0, d0) \<Rightarrow>
     case fold (md5_step (md5_words blk)) [0..<64] st of (a, b, c, d) \<Rightarrow>
       (a0 + a, b0 + b, c0 + c, d0 + d))"

definition md5_blocks :: "int list \<Rightarrow> int list list" where
  "md5_blocks bs = map (\<lambda>k. take 64 (drop (64 * k) bs)) [0..<length bs div 64]"

definition hex_byte :: "int \<Rightarrow> string" where
  "hex_byte n = [''0123456789abcdef'' ! nat (n div 16), ''0123456789abcdef'' ! nat (n mod 16)]"

definition word_bytes :: "32 word \<Rightarrow> int list" where
  "word_bytes w = map (\<lambda>i. uint w div 256 ^ i mod 256) [0..<4]"

definition md5_hex :: "string \<Rightarrow> string" where
  "md5_hex s = (case fold md5_block (md5_blocks (md5_pad (map of_char s)))
                      (0x67452301, 0xefcdab89, 0x98badcfe, 0x10325476) of
     (a, b, c, d) \<Rightarrow> concat (map hex_byte (concat (map word_bytes [a, b, c, d]))))"

section \<open>Content hash and similarity\<close>

text \<open>The three methods are chained on the JavaScript string; \<^verbatim>\<open>update\<close> hashes its
  UTF-8 encoding.\<close>

definition normalized :: "string \<Rightarrow> int list" where
  "normalized s = trim (replaceWs False (toLowerCase (codePoints s)))"

definition hashContent :: "string \<Rightarrow> string" where
  "hashContent s = md5_hex (utf8 (normalized s))"

text \<open>The quotient of the two set sizes. JavaScript's \<^verbatim>\<open>0 / 0\<close> is \<^verbatim>\<open>NaN\<close>,
  which is \<open>None\<close> here: the source has no branch for an empty union.\<close>

definition similarity :: "string \<Rightarrow> string \<Rightarrow> real option" where
  "similarity a b =
     (let wordsA = set (splitWs (toLowerCase (codePoints a)));
          wordsB = set (splitWs (toLowerCase (codePoints b)));
          intersection = {x \<in> wordsA. x \<in> wordsB};
          union = wordsA \<union> wordsB
      in if card union = 0 then None
         else Some (real (card intersection) / real (card union)))"

section \<open>Data model\<close>

record SafetySettings =
  minIntervalMinutes :: int
  maxPostsPerDay :: int
  enableJitter :: bool
  maxJitterMinutes :: int
  dedupeWindowDays :: int
  quietHoursStart :: int
  quietHoursEnd :: int
  enableQuietHours :: bool
  timezone :: string

definition DEFAULT_SAFETY :: SafetySettings where
  "DEFAULT_SAFETY = \<lparr>minIntervalMinutes = 30, maxPostsPerDay = 8, enableJitter = True,
     maxJitterMinutes = 30, dedupeWindowDays = 7, quietHoursStart = 23, quietHoursEnd = 6,
     enableQuietHours = True, timezone = ''UTC''\<rparr>"

text \<open>An entry of the history (interface \<^verbatim>\<open>PostHistory\<close>; the fields are prefixed
  with the \<^verbatim>\<open>h\<close> the source binds an entry to).\<close>

record PostHistory =
  h_id :: string
  h_text :: string
  h_hash :: string
  h_timestamp :: int
  h_mediaIds :: "string list option"

record RateLimitState =
  remaining :: int
  limit :: int
  resetAt :: int

text \<open>The key of a calendar day, \<^verbatim>\<open>new Date().toISOString().split('T')[0]\<close>: the
  ISO date of a UTC day is determined by the number of the day since the epoch, and
  determines it. \<open>NoDate\<close> is the empty string the store starts with.\<close>

datatype DayKey = NoDate | IsoDate int

record StoreSchema =
  postHistory :: "PostHistory list"
  lastPostAt :: "int option"
  dailyPostCount :: int
  dailyPostDate :: DayKey
  rateLimit :: "RateLimitState option"

definition storeDefaults :: StoreSchema where
  "storeDefaults = \<lparr>postHistory = [], lastPostAt = None, dailyPostCount = 0,
     dailyPostDate = NoDate, rateLimit = None\<rparr>"

text \<open>What a call reads from the platform: the clock, the offset of local time from UTC
  in milliseconds (\<^verbatim>\<open>getHours\<close> and \<^verbatim>\<open>setHours\<close> work in local time; the offset
  is taken as fixed) and the value of \<^verbatim>\<open>Math.random()\<close>.\<close>

record Env =
  clock :: int
  tzOffsetMs :: int
  mathRandom :: real

record PostOptions =
  o_text :: string
  o_replyTo :: "string option"
  o_quoteTweetId :: "string option"
  o_mediaIds :: "string list option"
  o_force :: bool
  o_jitterMinutes :: "int option"

datatype TimeAgo = SecondsAgo int | MinutesAgo int | HoursAgo int | DaysAgo int

datatype SafetyError =
    RateLimitExceeded int
  | DailyLimitReached int
  | DuplicateContent TimeAgo
  | ExcessiveHashtags

datatype SafetyWarning =
    ApproachingDailyLimit int int
  | QuietHoursActive
  | VerySimilar "int option"
  | TooManyHashtags nat
  | UrlShorteners
  | ManyMentions nat
  | PostedRecently int int

datatype Suggestion = ConsiderRephrasing | UseFullUrls

record SafetyCheck =
  safe :: bool
  warnings :: "SafetyWarning list"
  errors :: "SafetyError list"
  suggestions :: "Suggestion list"

record DelayResult =
  delayMs :: real
  reason :: "string option"

text \<open>\<^verbatim>\<open>blockReason\<close> is the errors joined by a semicolon, or a fixed text.\<close>

datatype BlockReason = JoinedErrors "SafetyError list" | ReasonText string

record PostResult =
  success :: bool
  tweetId :: "string option"
  scheduledFor :: "int option"
  delayed :: "bool option"
  delayMinutes :: "int option"
  blocked :: "bool option"
  blockReason :: "BlockReason option"
  rateLimitRemaining :: "int option"
  rateLimitReset :: "int option"

definition emptyResult :: PostResult where
  "emptyResult = \<lparr>success = False, tweetId = None, scheduledFor = None, delayed = None,
     delayMinutes = None, blocked = None, blockReason = None, rateLimitRemaining = None,
     rateLimitReset = None\<rparr>"

subsection \<open>The Publisher\<close>

text \<open>The request handed to \<^verbatim>\<open>client.v2.tweet\<close> and what comes back: the id of the
  tweet, or the error thrown. Of the error the source reads \<^verbatim>\<open>code\<close>,
  \<^verbatim>\<open>rateLimitError\<close> and \<^verbatim>\<open>rateLimit\<close> (with \<^verbatim>\<open>limit\<close> and
  \<^verbatim>\<open>reset\<close>, the latter in seconds).\<close>

record TweetData =
  t_text :: string
  t_reply :: "string option"
  t_quote_tweet_id :: "string option"
  t_media :: "string list option"

record RateLimitInfo =
  info_limit :: int
  info_reset :: int

record ApiError =
  err_code :: "int option"
  err_rateLimitError :: bool
  err_rateLimit :: "RateLimitInfo option"
  err_message :: string

datatype TweetOutcome = Tweeted string | Failed ApiError

section \<open>Numbers\<close>

text \<open>The position of the leading binary digit of a positive number: \<open>ilog2 x = e\<close> when
  \<open>x\<close> is at least 2 to the power \<open>e\<close> and below 2 to the power \<open>e + 1\<close>.\<close>

definition ilog2 :: "real \<Rightarrow> int" where
  "ilog2 x =
     (if 1 \<le> x then bitlen \<lfloor>x\<rfloor> - 1
      else if 0 < x then - bitlen (\<lceil>1 / x\<rceil> - 1)
      else 0)"

text \<open>Rounding to the nearest integer, a tie to the even one.\<close>

definition roundHalfEven :: "real \<Rightarrow> int" where
  "roundHalfEven y =
     (let f = \<lfloor>y\<rfloor>; d = y - real_of_int f
      in if d < 1 / 2 then f
         else if 1 / 2 < d then f + 1
         else if even f then f else f + 1)"

text \<open>The distance of neighbouring doubles around \<open>x\<close>: a double has 53 significant
  binary digits, and below 2 to the power -1022 the distance stays that of the
  subnormal numbers.\<close>

definition ulp :: "real \<Rightarrow> real" where
  "ulp x = 2 powi (max (ilog2 \<bar>x\<bar>) (- 1022) - 52)"

text \<open>The double that a JavaScript operation returns for the exact result \<open>x\<close>.\<close>

definition toDouble :: "real \<Rightarrow> real" where
  "toDouble x = real_of_int (roundHalfEven (x / ulp x)) * ulp x"

text \<open>The sum \<^verbatim>\<open>a + b\<close> of the code, for a delay or an instant \<open>a\<close> that the embedding
  holds as an exact integer. Where \<open>a\<close> is a double, as every number of the code is, the
  sum is rounded as the code rounds it. An integer \<open>a\<close> that is no double (none is below
  2 to the power 53) has no counterpart in the code, and the sum is left exact.\<close>

definition addNumbers :: "real \<Rightarrow> real \<Rightarrow> real" where
  "addNumbers a b = (if toDouble a = a then toDouble (a + b) else a + b)"

section \<open>Private methods\<close>

definition dayMs :: int where
  "dayMs = 24 * 60 * 60 * 1000"

definition getTodayString :: "Env \<Rightarrow> DayKey" where
  "getTodayString env = IsoDate (clock env div dayMs)"

definition checkDailyReset :: "Env \<Rightarrow> StoreSchema \<Rightarrow> StoreSchema" where
  "checkDailyReset env s =
     (let today = getTodayString env
      in if dailyPostDate s \<noteq> today
         then s\<lparr>dailyPostCount := 0, dailyPostDate := today\<rparr>
         else s)"

definition recordPost ::
  "Env \<Rightarrow> string \<Rightarrow> string \<Rightarrow> string list option \<Rightarrow> StoreSchema \<Rightarrow> StoreSchema" where
  "recordPost env content tweet media s =
     (let history = postHistory s @
            [\<lparr>h_id = tweet, h_text = content, h_hash = hashContent content,
              h_timestamp = clock env, h_mediaIds = media\<rparr>];
          cutoff = clock env - 30 * 24 * 60 * 60 * 1000;
          pruned = filter (\<lambda>h. h_timestamp h > cutoff) history
      in s\<lparr>postHistory := pruned, lastPostAt := Some (clock env),
            dailyPostCount := dailyPostCount s + 1\<rparr>)"

text \<open>\<^verbatim>\<open>new Date().getHours()\<close>: the hour of the local wall clock.\<close>

definition getHours :: "Env \<Rightarrow> int" where
  "getHours env = ((clock env + tzOffsetMs env) mod dayMs) div (60 * 60 * 1000)"

definition isQuietHours :: "SafetySettings \<Rightarrow> Env \<Rightarrow> bool" where
  "isQuietHours safety env =
     (let hour = getHours env;
          start = quietHoursStart safety;
          endHour = quietHoursEnd safety
      in if start > endHour then hour \<ge> start \<or> hour < endHour
         else hour \<ge> start \<and> hour < endHour)"

text \<open>\<^verbatim>\<open>setHours(quietHoursEnd, 0, 0, 0)\<close> on today's local date, one day later when
  that is not after now.\<close>

definition getQuietHoursEnd :: "SafetySettings \<Rightarrow> Env \<Rightarrow> int" where
  "getQuietHoursEnd safety env =
     (let now = clock env;
          localMidnight = (now + tzOffsetMs env) - (now + tzOffsetMs env) mod dayMs;
          endAt = localMidnight + quietHoursEnd safety * (60 * 60 * 1000) - tzOffsetMs env
      in if endAt \<le> now then endAt + dayMs else endAt)"

definition timeAgo :: "Env \<Rightarrow> int \<Rightarrow> TimeAgo" where
  "timeAgo env ts =
     (let seconds = (clock env - ts) div 1000
      in if seconds < 60 then SecondsAgo seconds
         else if seconds < 3600 then MinutesAgo (seconds div 60)
         else if seconds < 86400 then HoursAgo (seconds div 3600)
         else DaysAgo (seconds div 86400))"

section \<open>Public methods\<close>

subsection \<open>checkSafety\<close>

text \<open>The method pushes onto three arrays, in the order below, and resets the daily counter
  on the way, so it returns the verdict together with the store.\<close>

definition checkSafety ::
  "SafetySettings \<Rightarrow> Env \<Rightarrow> string \<Rightarrow> StoreSchema \<Rightarrow> SafetyCheck \<times> StoreSchema" where
  "checkSafety safety env content s0 =
     (let now = clock env;
          \<comment> \<open>rate limit\<close>
          e1 = (case rateLimit s0 of
                  None \<Rightarrow> []
                | Some rl \<Rightarrow>
                    if remaining rl = 0 \<and> resetAt rl > now
                    then [RateLimitExceeded (resetAt rl)] else []);
          \<comment> \<open>daily limit\<close>
          s = checkDailyReset env s0;
          dailyCount = dailyPostCount s;
          e2 = (if dailyCount \<ge> maxPostsPerDay safety
                then [DailyLimitReached (maxPostsPerDay safety)] else []);
          w2 = (if dailyCount \<ge> maxPostsPerDay safety then []
                else if dailyCount \<ge> maxPostsPerDay safety - 2
                then [ApproachingDailyLimit dailyCount (maxPostsPerDay safety)] else []);
          \<comment> \<open>quiet hours\<close>
          w3 = (if enableQuietHours safety \<and> isQuietHours safety env
                then [QuietHoursActive] else []);
          \<comment> \<open>duplicate content\<close>
          hash = hashContent content;
          history = postHistory s;
          cutoff = now - dedupeWindowDays safety * 24 * 60 * 60 * 1000;
          duplicate = find (\<lambda>h. h_hash h = hash \<and> h_timestamp h > cutoff) history;
          e4 = (case duplicate of
                  None \<Rightarrow> []
                | Some d \<Rightarrow> [DuplicateContent (timeAgo env (h_timestamp d))]);
          \<comment> \<open>similar content; a comparison with NaN is false\<close>
          similar = find (\<lambda>h. h_timestamp h > cutoff \<and>
                           (case similarity content (h_text h) of
                              None \<Rightarrow> False
                            | Some v \<Rightarrow> v > 0.8)) history;
          w5 = (case similar of
                  None \<Rightarrow> []
                | Some m \<Rightarrow>
                    if h_hash m \<noteq> hash
                    then [VerySimilar (map_option (\<lambda>v. round (v * 100))
                                         (similarity content (h_text m)))]
                    else []);
          g5 = (case similar of
                  None \<Rightarrow> []
                | Some m \<Rightarrow> if h_hash m \<noteq> hash then [ConsiderRephrasing] else []);
          \<comment> \<open>hashtags\<close>
          hashtagCount = countMarked (CHR ''#'') content;
          w6 = (if hashtagCount > 3 then [TooManyHashtags hashtagCount] else []);
          e6 = (if hashtagCount > 5 then [ExcessiveHashtags] else []);
          \<comment> \<open>URL shorteners\<close>
          w7 = (if hasUrlShortener content then [UrlShorteners] else []);
          g7 = (if hasUrlShortener content then [UseFullUrls] else []);
          \<comment> \<open>mentions\<close>
          mentionCount = countMarked (CHR ''@'') content;
          w8 = (if mentionCount > 5 then [ManyMentions mentionCount] else []);
          \<comment> \<open>minimum interval; a stored 0 is falsy, like null\<close>
          w9 = (case lastPostAt s of
                  None \<Rightarrow> []
                | Some lastPost \<Rightarrow>
                    if lastPost = 0 then []
                    else (let minutesSince = real_of_int (now - lastPost) / 60000
                          in if minutesSince < real_of_int (minIntervalMinutes safety)
                             then [PostedRecently (round minutesSince)
                                     \<lceil>real_of_int (minIntervalMinutes safety) - minutesSince\<rceil>]
                             else []));
          errs = e1 @ e2 @ e4 @ e6
      in (\<lparr>safe = (length errs = 0),
           warnings = w2 @ w3 @ w5 @ w6 @ w7 @ w8 @ w9,
           errors = errs,
           suggestions = g5 @ g7\<rparr>, s))"

subsection \<open>calculateDelay\<close>

text \<open>The method updates two local variables in four steps, which are four functions on
  the pair of them here, in the order of the source.\<close>

definition rateLimitDelay :: "Env \<Rightarrow> StoreSchema \<Rightarrow> DelayResult \<Rightarrow> DelayResult" where
  "rateLimitDelay env s d =
     (case rateLimit s of
        None \<Rightarrow> d
      | Some rl \<Rightarrow>
          if remaining rl = 0 \<and> resetAt rl > clock env
          then \<lparr>delayMs = max (delayMs d) (real_of_int (resetAt rl - clock env)),
                reason = Some ''Rate limit cooldown''\<rparr>
          else d)"

text \<open>A stored instant of 0 is falsy, like \<^verbatim>\<open>null\<close>.\<close>

definition minIntervalDelay ::
  "SafetySettings \<Rightarrow> Env \<Rightarrow> StoreSchema \<Rightarrow> DelayResult \<Rightarrow> DelayResult" where
  "minIntervalDelay safety env s d =
     (case lastPostAt s of
        None \<Rightarrow> d
      | Some lastPost \<Rightarrow>
          if lastPost = 0 then d
          else (let minWait = minIntervalMinutes safety * 60 * 1000;
                    timeSince = clock env - lastPost
                in if timeSince < minWait
                   then \<lparr>delayMs = max (delayMs d) (real_of_int (minWait - timeSince)),
                         reason = (case reason d of
                                     None \<Rightarrow> Some ''Minimum interval''
                                   | Some r \<Rightarrow> Some r)\<rparr>
                   else d))"

definition quietHoursDelay :: "SafetySettings \<Rightarrow> Env \<Rightarrow> DelayResult \<Rightarrow> DelayResult" where
  "quietHoursDelay safety env d =
     (if enableQuietHours safety \<and> isQuietHours safety env
      then (let quietEnd = getQuietHoursEnd safety env
            in \<lparr>delayMs = max (delayMs d) (real_of_int (quietEnd - clock env)),
                  reason = (case reason d of
                              None \<Rightarrow> Some ''Quiet hours''
                            | Some r \<Rightarrow> Some r)\<rparr>)
      else d)"

text \<open>\<^verbatim>\<open>Math.random() * jitterMinutes * 60 * 1000\<close> is three multiplications from left to
  right, each rounded, and \<^verbatim>\<open>delayMs += jitterMs\<close> a rounded sum.\<close>

definition addJitter ::
  "SafetySettings \<Rightarrow> Env \<Rightarrow> int option \<Rightarrow> DelayResult \<Rightarrow> DelayResult" where
  "addJitter safety env customJitter d =
     (if enableJitter safety \<and> delayMs d > 0
      then (let jitterMinutes = (case customJitter of
                                   None \<Rightarrow> maxJitterMinutes safety
                                 | Some j \<Rightarrow> j);
                jitterMs = toDouble (toDouble (toDouble
                             (mathRandom env * real_of_int jitterMinutes) * 60) * 1000)
            in d\<lparr>delayMs := addNumbers (delayMs d) jitterMs\<rparr>)
      else d)"

definition calculateDelay ::
  "SafetySettings \<Rightarrow> Env \<Rightarrow> int option \<Rightarrow> StoreSchema \<Rightarrow> DelayResult" where
  "calculateDelay safety env customJitter s =
     addJitter safety env customJitter
       (quietHoursDelay safety env
         (minIntervalDelay safety env s
           (rateLimitDelay env s \<lparr>delayMs = 0, reason = None\<rparr>)))"

subsection \<open>post\<close>

text \<open>The time value of \<^verbatim>\<open>new Date(x)\<close> drops the fraction of \<open>x\<close>.\<close>

definition dateOf :: "real \<Rightarrow> int" where
  "dateOf x = (if x \<ge> 0 then \<lfloor>x\<rfloor> else \<lceil>x\<rceil>)"

definition truthy :: "string option \<Rightarrow> string option" where
  "truthy v = (case v of None \<Rightarrow> None | Some x \<Rightarrow> if x = [] then None else Some x)"

definition tweetDataOf :: "PostOptions \<Rightarrow> TweetData" where
  "tweetDataOf options =
     \<lparr>t_text = o_text options,
      t_reply = truthy (o_replyTo options),
      t_quote_tweet_id = truthy (o_quoteTweetId options),
      t_media = (case o_mediaIds options of
                   None \<Rightarrow> None
                 | Some ms \<Rightarrow> if length ms > 0 then Some ms else None)\<rparr>"

text \<open>The \<^verbatim>\<open>try\<close> block and its \<^verbatim>\<open>catch\<close>: the left injection is the error
  thrown on to the caller.\<close>

definition submit ::
  "(TweetData \<Rightarrow> TweetOutcome) \<Rightarrow> Env \<Rightarrow> PostOptions \<Rightarrow> StoreSchema
     \<Rightarrow> (ApiError + PostResult) \<times> StoreSchema" where
  "submit client env options s =
     (case client (tweetDataOf options) of
        Tweeted tid \<Rightarrow>
          (let s' = recordPost env (o_text options) tid (o_mediaIds options) s
           in (Inr (emptyResult\<lparr>success := True, tweetId := Some tid,
                     rateLimitRemaining := map_option remaining (rateLimit s')\<rparr>), s'))
      | Failed err \<Rightarrow>
          if err_code err = Some 429 \<or> err_rateLimitError err
          then (let reset = (case err_rateLimit err of
                               None \<Rightarrow> clock env + 15 * 60 * 1000
                             | Some info \<Rightarrow>
                                 if info_reset info \<noteq> 0 then info_reset info * 1000
                                 else clock env + 15 * 60 * 1000);
                    lim = (case err_rateLimit err of
                             None \<Rightarrow> 100
                           | Some info \<Rightarrow>
                               if info_limit info \<noteq> 0 then info_limit info else 100)
                in (Inr (emptyResult\<lparr>success := False, blocked := Some True,
                          blockReason := Some (ReasonText ''Rate limit exceeded''),
                          rateLimitRemaining := Some 0, rateLimitReset := Some reset\<rparr>),
                    s\<lparr>rateLimit := Some \<lparr>remaining = 0, limit = lim, resetAt = reset\<rparr>\<rparr>))
          else (Inl err, s))"

definition post ::
  "SafetySettings \<Rightarrow> (TweetData \<Rightarrow> TweetOutcome) \<Rightarrow> Env \<Rightarrow> PostOptions \<Rightarrow> StoreSchema
     \<Rightarrow> (ApiError + PostResult) \<times> StoreSchema" where
  "post safety client env options s0 =
     (let force = o_force options;
          (check, s) = (if \<not> force then checkSafety safety env (o_text options) s0
                        else (\<lparr>safe = True, warnings = [], errors = [], suggestions = []\<rparr>, s0))
      in if \<not> force \<and> \<not> safe check
         then (Inr (emptyResult\<lparr>success := False, blocked := Some True,
                     blockReason := Some (JoinedErrors (errors check))\<rparr>), s)
         else (let delay = calculateDelay safety env (o_jitterMinutes options) s
               in if delayMs delay > 0 \<and> \<not> force
                  then (Inr (emptyResult\<lparr>success := False, delayed := Some True,
                              delayMinutes := Some \<lceil>toDouble (delayMs delay / 60000)\<rceil>,
                              scheduledFor := Some (dateOf (addNumbers (real_of_int (clock env))
                                                              (delayMs delay))),
                              blockReason := map_option ReasonText (reason delay)\<rparr>), s)
                  else submit client env options s))"

section \<open>Notions of the specification\<close>

text \<open>The specification speaks of the words of a text. A word is a non-empty piece between
  whitespace; the pieces the source puts into its sets may be empty.\<close>

definition wordsOf :: "string \<Rightarrow> int list set" where
  "wordsOf s = {w \<in> set (splitWs (toLowerCase (codePoints s))). w \<noteq> []}"

text \<open>The normalized form in the words of the specification: the text in lower case, its
  inner whitespace collapsed and its ends trimmed, which is its words joined by single
  spaces. A word is a maximal run of characters that are not whitespace.\<close>

function wordsIn :: "int list \<Rightarrow> int list list" where
  "wordsIn [] = []"
| "wordsIn (c # cs) =
     (if isSpace c then wordsIn cs
      else (c # takeWhile (\<lambda>d. \<not> isSpace d) cs)
             # wordsIn (dropWhile (\<lambda>d. \<not> isSpace d) cs))"
  by pat_completeness auto
termination
  by (relation "measure length") (auto simp: length_dropWhile_le less_Suc_eq_le)

fun joinWords :: "int list list \<Rightarrow> int list" where
  "joinWords [] = []"
| "joinWords [w] = w"
| "joinWords (w # v # ws) = w @ [0x20] @ joinWords (v # ws)"

definition normalizedForm :: "string \<Rightarrow> int list" where
  "normalizedForm s = joinWords (wordsIn (toLowerCase (codePoints s)))"

text \<open>Posts recorded one after the other, each with its instant, its text and the id of
  its tweet.\<close>

fun recordPosts :: "(Env \<times> string \<times> string) list \<Rightarrow> StoreSchema \<Rightarrow> StoreSchema" where
  "recordPosts [] s = s"
| "recordPosts ((env, content, tweet) # later) s =
     recordPosts later (recordPost env content tweet None s)"

text \<open>The space that replacing leaves at the end of a text that ends in whitespace after
  its last word.\<close>

definition trailing :: "int list \<Rightarrow> int list" where
  "trailing xs = (if wordsIn xs \<noteq> [] \<and> isSpace (last xs) then [0x20] else [])"

text \<open>The rate-limit window is exhausted when a state is stored with nothing remaining and
  a reset instant after now.\<close>

definition isExhausted :: "Env \<Rightarrow> StoreSchema \<Rightarrow> bool" where
  "isExhausted env s =
     (case rateLimit s of
        None \<Rightarrow> False
      | Some rl \<Rightarrow> remaining rl = 0 \<and> resetAt rl > clock env)"

text \<open>A history entry counts as a duplicate of a candidate text when it carries the hash of
  the candidate and lies inside the dedupe window.\<close>

definition duplicateInWindow :: "SafetySettings \<Rightarrow> Env \<Rightarrow> string \<Rightarrow> PostHistory \<Rightarrow> bool" where
  "duplicateInWindow safety env content h =
     (h_hash h = hashContent content
      \<and> h_timestamp h > clock env - dedupeWindowDays safety * dayMs)"

text \<open>A history entry counts as similar to a candidate text when it lies inside the dedupe
  window and its similarity to the candidate exceeds 0.8.\<close>

definition similarInWindow :: "SafetySettings \<Rightarrow> Env \<Rightarrow> string \<Rightarrow> PostHistory \<Rightarrow> bool" where
  "similarInWindow safety env content h =
     (h_timestamp h > clock env - dedupeWindowDays safety * dayMs
      \<and> (case similarity content (h_text h) of None \<Rightarrow> False | Some v \<Rightarrow> v > 0.8))"

text \<open>The three components of the delay as the specification names them, each zero when
  its rule does not apply, and their maximum.\<close>

definition cooldownRemaining :: "Env \<Rightarrow> StoreSchema \<Rightarrow> real" where
  "cooldownRemaining env s =
     (case rateLimit s of
        None \<Rightarrow> 0
      | Some rl \<Rightarrow>
          if remaining rl = 0 \<and> resetAt rl > clock env
          then real_of_int (resetAt rl - clock env) else 0)"

definition intervalRemaining :: "SafetySettings \<Rightarrow> Env \<Rightarrow> StoreSchema \<Rightarrow> real" where
  "intervalRemaining safety env s =
     (case lastPostAt s of
        None \<Rightarrow> 0
      | Some lastPost \<Rightarrow>
          if lastPost \<noteq> 0 \<and> clock env - lastPost < minIntervalMinutes safety * 60 * 1000
          then real_of_int (minIntervalMinutes safety * 60 * 1000 - (clock env - lastPost))
          else 0)"

definition quietRemaining :: "SafetySettings \<Rightarrow> Env \<Rightarrow> real" where
  "quietRemaining safety env =
     (if enableQuietHours safety \<and> isQuietHours safety env
      then real_of_int (getQuietHoursEnd safety env - clock env) else 0)"

definition baseDelay :: "SafetySettings \<Rightarrow> Env \<Rightarrow> StoreSchema \<Rightarrow> real" where
  "baseDelay safety env s =
     max (max (max 0 (cooldownRemaining env s)) (intervalRemaining safety env s))
         (quietRemaining safety env)"

text \<open>The jitter in minutes: the override when one is given, else the setting.\<close>

definition jitterOf :: "SafetySettings \<Rightarrow> int option \<Rightarrow> int" where
  "jitterOf safety customJitter =
     (case customJitter of None \<Rightarrow> maxJitterMinutes safety | Some j \<Rightarrow> j)"

text \<open>The jitter in milliseconds that the code computes from a random value \<open>r\<close> and a
  number of minutes.\<close>

definition jitterMsOf :: "real \<Rightarrow> int \<Rightarrow> real" where
  "jitterMsOf r minutes = toDouble (toDouble (toDouble (r * real_of_int minutes) * 60) * 1000)"

text \<open>What a rate-limit error reports: the reset instant in milliseconds (the error gives
  seconds), a quarter of an hour from now when it gives none, and the limit, 100 when it
  gives none.\<close>

definition reportedReset :: "Env \<Rightarrow> ApiError \<Rightarrow> int" where
  "reportedReset env err =
     (case err_rateLimit err of
        None \<Rightarrow> clock env + 15 * 60 * 1000
      | Some info \<Rightarrow>
          if info_reset info \<noteq> 0 then info_reset info * 1000 else clock env + 15 * 60 * 1000)"

definition reportedLimit :: "ApiError \<Rightarrow> int" where
  "reportedLimit err =
     (case err_rateLimit err of
        None \<Rightarrow> 100
      | Some info \<Rightarrow> if info_limit info \<noteq> 0 then info_limit info else 100)"

text \<open>A post reaches the Publisher when it is forced, or when the verdict is safe and the
  computed delay is not above zero.\<close>

definition reachesPublisher :: "SafetySettings \<Rightarrow> Env \<Rightarrow> PostOptions \<Rightarrow> StoreSchema \<Rightarrow> bool" where
  "reachesPublisher safety env options s =
     (o_force options
      \<or> (safe (fst (checkSafety safety env (o_text options) s))
          \<and> \<not> 0 < delayMs (calculateDelay safety env (o_jitterMinutes options)
                          (snd (checkSafety safety env (o_text options) s)))))"

section \<open>Concrete settings and instants\<close>

text \<open>A machine on UTC at the instant \<open>t\<close> whose random source returns one half.\<close>

definition envAt :: "int \<Rightarrow> Env" where
  "envAt t = \<lparr>clock = t, tzOffsetMs = 0, mathRandom = 1 / 2\<rparr>"

text \<open>Noon of the first day of the epoch, outside the default quiet hours.\<close>

definition noon :: int where
  "noon = 12 * 60 * 60 * 1000"


text \<open>"Hello" recorded at noon and "World" forty days later; a window of sixty days.\<close>

definition helloThenWorld :: StoreSchema where
  "helloThenWorld =
     recordPosts [(envAt (noon + 40 * dayMs), ''World'', ''2'')]
       (recordPost (envAt noon) ''Hello'' ''1'' None storeDefaults)"

definition sixtyDays :: SafetySettings where
  "sixtyDays = DEFAULT_SAFETY\<lparr>dedupeWindowDays := 60\<rparr>"

text \<open>Two texts that differ in letter case and in whitespace only: "Hello", two spaces,
  "CAF" and a capital E with acute accent; and a no-break space, "hello", a tab, "caf",
  a small e with acute accent and a space.\<close>

definition cafeRecorded :: string where
  "cafeRecorded = ''Hello  CAF'' @ [CHR 0xC3, CHR 0x89]"

definition cafeCandidate :: string where
  "cafeCandidate =
     [CHR 0xC2, CHR 0xA0] @ ''hello'' @ [CHR 0x09] @ ''caf'' @ [CHR 0xC3, CHR 0xA9] @ '' ''"

text \<open>A forced and an unforced post of the text "Hi", and a Publisher that accepts every
  tweet under the id 42.\<close>

definition postHi :: "bool \<Rightarrow> PostOptions" where
  "postHi force = \<lparr>o_text = ''Hi'', o_replyTo = None, o_quoteTweetId = None,
     o_mediaIds = None, o_force = force, o_jitterMinutes = None\<rparr>"

definition accepting :: "TweetData \<Rightarrow> TweetOutcome" where
  "accepting d = Tweeted ''42''"

definition failing :: "ApiError \<Rightarrow> TweetData \<Rightarrow> TweetOutcome" where
  "failing err d = Failed err"

text \<open>Two failures of the Publisher: a rate-limit error that reports a limit of 300 and a
  reset at second 50000, and a server error.\<close>

definition rateLimited :: ApiError where
  "rateLimited = \<lparr>err_code = Some 429, err_rateLimitError = True,
     err_rateLimit = Some \<lparr>info_limit = 300, info_reset = 50000\<rparr>,
     err_message = ''Too Many Requests''\<rparr>"

definition serverError :: ApiError where
  "serverError = \<lparr>err_code = Some 500, err_rateLimitError = False, err_rateLimit = None,
     err_message = ''Internal Server Error''\<rparr>"

text \<open>Two posts an hour apart, the second the first with one more word, and the store
  after recording the first and after recording both.\<close>

definition firstPost :: PostHistory where
  "firstPost = \<lparr>h_id = ''1'', h_text = ''a b c d e'', h_hash = hashContent ''a b c d e'',
     h_timestamp = noon, h_mediaIds = None\<rparr>"

definition secondPost :: PostHistory where
  "secondPost = \<lparr>h_id = ''2'', h_text = ''a b c d e f'', h_hash = hashContent ''a b c d e f'',
     h_timestamp = noon + 3600000, h_mediaIds = None\<rparr>"

definition onePosted :: StoreSchema where
  "onePosted = recordPost (envAt noon) ''a b c d e'' ''1'' None storeDefaults"

definition twoPosted :: StoreSchema where
  "twoPosted = recordPost (envAt (noon + 3600000)) ''a b c d e f'' ''2'' None onePosted"

section \<open>The digest on a test vector\<close>

text \<open>The digest of "abc" given in RFC 1321.\<close>

lemma md5_test_vector: "md5_hex ''abc'' = ''900150983cd24fb0d6963f7d28e17f72''"
  by code_simp

section \<open>The normalized form\<close>

lemma space_is_space: "isSpace 0x20"
  by (simp add: isSpace_def)

lemma replaceWs_word:
  "replaceWs False cs
   = takeWhile (\<lambda>d. \<not> isSpace d) cs @ replaceWs False (dropWhile (\<lambda>d. \<not> isSpace d) cs)"
  by (induction cs) simp_all

lemma replaceWs_False:
  "replaceWs False xs
   = (if xs \<noteq> [] \<and> isSpace (hd xs) then [0x20] else []) @ replaceWs True xs"
  by (cases xs) simp_all

lemma dropWhile_word_shape:
  "dropWhile (\<lambda>d. \<not> isSpace d) cs = s # r \<Longrightarrow> isSpace s"
  using hd_dropWhile [of "\<lambda>d. \<not> isSpace d" cs] by auto

lemma wordsIn_words:
  "w \<in> set (wordsIn xs) \<Longrightarrow> w \<noteq> [] \<and> (\<forall>c \<in> set w. \<not> isSpace c)"
proof (induction xs arbitrary: w rule: wordsIn.induct)
  case 1
  then show ?case by simp
next
  case (2 c cs)
  show ?case
  proof (cases "isSpace c")
    case True
    with 2 show ?thesis by simp
  next
    case False
    then have "w = c # takeWhile (\<lambda>d. \<not> isSpace d) cs
               \<or> w \<in> set (wordsIn (dropWhile (\<lambda>d. \<not> isSpace d) cs))"
      using "2.prems" by simp
    then show ?thesis
    proof
      assume "w = c # takeWhile (\<lambda>d. \<not> isSpace d) cs"
      then show ?thesis
        using False by (auto dest: set_takeWhileD)
    next
      assume "w \<in> set (wordsIn (dropWhile (\<lambda>d. \<not> isSpace d) cs))"
      then show ?thesis
        using "2.IH"(2) [OF False] by blast
    qed
  qed
qed

lemma wordsIn_Nil: "wordsIn xs = [] \<Longrightarrow> c \<in> set xs \<Longrightarrow> isSpace c"
  by (induction xs rule: wordsIn.induct) (auto split: if_splits)

lemma last_after_word:
  assumes "dropWhile P cs \<noteq> []"
  shows "last (c # cs) = last (dropWhile P cs)"
proof -
  have "cs = takeWhile P cs @ dropWhile P cs"
    by simp
  then have "last cs = last (dropWhile P cs)"
    using assms by (metis last_appendR)
  moreover have "cs \<noteq> []"
    using assms by auto
  ultimately show ?thesis by simp
qed

lemma replaceWs_True:
  "replaceWs True xs = joinWords (wordsIn xs) @ trailing xs"
proof (induction xs rule: wordsIn.induct)
  case 1
  show ?case by (simp add: trailing_def)
next
  case (2 c cs)
  show ?case
  proof (cases "isSpace c")
    case True
    have "trailing (c # cs) = trailing cs"
    proof (cases "wordsIn cs = []")
      case True
      then show ?thesis using \<open>isSpace c\<close> by (simp add: trailing_def)
    next
      case False
      then have "cs \<noteq> []" by auto
      then show ?thesis using \<open>isSpace c\<close> by (simp add: trailing_def)
    qed
    then show ?thesis
      using True "2.IH"(1) by simp
  next
    case False
    let ?w = "c # takeWhile (\<lambda>d. \<not> isSpace d) cs"
    let ?rest = "dropWhile (\<lambda>d. \<not> isSpace d) cs"
    have ih: "replaceWs True ?rest = joinWords (wordsIn ?rest) @ trailing ?rest"
      using "2.IH"(2) [OF False] .
    have lhs: "replaceWs True (c # cs) = ?w @ replaceWs False ?rest"
      using False replaceWs_word [of cs] by simp
    have ws: "wordsIn (c # cs) = ?w # wordsIn ?rest"
      using False by simp
    show ?thesis
    proof (cases ?rest)
      case Nil
      then have "cs = takeWhile (\<lambda>d. \<not> isSpace d) cs"
        by (metis append_Nil2 takeWhile_dropWhile_id)
      then have "\<forall>d \<in> set cs. \<not> isSpace d"
        by (metis set_takeWhileD)
      then have "\<not> isSpace (last (c # cs))"
        using False by (metis last_in_set list.distinct(1) set_ConsD)
      then show ?thesis
        using lhs ws Nil by (simp add: trailing_def)
    next
      case (Cons s r)
      then have sp: "isSpace s"
        by (rule dropWhile_word_shape)
      have last: "last (c # cs) = last ?rest"
        by (rule last_after_word) (simp add: Cons)
      have step: "replaceWs False ?rest = [0x20] @ replaceWs True ?rest"
        using replaceWs_False [of ?rest] sp Cons by simp
      show ?thesis
      proof (cases "wordsIn ?rest")
        case Nil
        have "isSpace (last ?rest)"
          using wordsIn_Nil [OF Nil, of "last ?rest"] Cons by (metis last_in_set list.distinct(1))
        then show ?thesis
          using lhs ws step ih Nil last by (simp add: trailing_def)
      next
        case (Cons v vs)
        then show ?thesis
          using lhs ws step ih last by (simp add: trailing_def)
      qed
    qed
  qed
qed

lemma joinWords_ends:
  assumes "ws \<noteq> []" and "\<And>w. w \<in> set ws \<Longrightarrow> w \<noteq> [] \<and> (\<forall>c \<in> set w. \<not> isSpace c)"
  shows "joinWords ws \<noteq> [] \<and> \<not> isSpace (hd (joinWords ws)) \<and> \<not> isSpace (last (joinWords ws))"
  using assms
proof (induction ws rule: joinWords.induct)
  case 1
  then show ?case by simp
next
  case (2 w)
  then have "w \<noteq> []" and "\<forall>c \<in> set w. \<not> isSpace c"
    by auto
  then show ?case
    by (metis hd_in_set joinWords.simps(2) last_in_set)
next
  case (3 w v ws)
  have w: "w \<noteq> []" "\<forall>c \<in> set w. \<not> isSpace c"
    using "3.prems"(2) [of w] by auto
  have rest: "joinWords (v # ws) \<noteq> [] \<and> \<not> isSpace (last (joinWords (v # ws)))"
    using "3.IH" "3.prems"(2) by auto
  have "hd (joinWords (w # v # ws)) = hd w"
    using w(1) by simp
  moreover have "last (joinWords (w # v # ws)) = last (joinWords (v # ws))"
    using rest by simp
  ultimately show ?case
    using w rest by (metis append_is_Nil_conv hd_in_set joinWords.simps(3))
qed

lemma trim_core:
  assumes "J \<noteq> []" "\<not> isSpace (hd J)" "\<not> isSpace (last J)"
    and "\<And>c. c \<in> set L \<Longrightarrow> isSpace c" and "\<And>c. c \<in> set T \<Longrightarrow> isSpace c"
  shows "trim (L @ J @ T) = J"
proof -
  obtain j J' where J: "J = j # J'"
    using assms(1) by (cases J) auto
  have "dropWhile isSpace (L @ J @ T) = dropWhile isSpace (J @ T)"
    by (rule dropWhile_append2) (simp add: assms(4))
  then have 1: "dropWhile isSpace (L @ J @ T) = J @ T"
    using assms(2) J by simp
  have "rev J \<noteq> []" and "hd (rev J) = last J"
    using assms(1) by (simp_all add: hd_rev)
  then obtain k K where K: "rev J = k # K" "k = last J"
    by (cases "rev J") auto
  have a: "dropWhile isSpace (rev T @ rev J) = dropWhile isSpace (rev J)"
    by (rule dropWhile_append2) (simp add: assms(5))
  have b: "dropWhile isSpace (k # K) = k # K"
    using K(2) assms(3) by simp
  have 2: "dropWhile isSpace (rev T @ rev J) = rev J"
    using a b by (simp only: K(1))
  show ?thesis
    by (simp add: trim_def 1 2)
qed

lemma trim_replaceWs: "trim (replaceWs False xs) = joinWords (wordsIn xs)"
proof (cases "wordsIn xs = []")
  case True
  then have "replaceWs False xs = (if xs \<noteq> [] \<and> isSpace (hd xs) then [0x20] else [])"
    by (simp add: replaceWs_False [of xs] replaceWs_True trailing_def)
  then show ?thesis
    using True by (simp add: trim_def space_is_space)
next
  case False
  let ?L = "if xs \<noteq> [] \<and> isSpace (hd xs) then [0x20] else []"
  have shape: "replaceWs False xs = ?L @ joinWords (wordsIn xs) @ trailing xs"
    using replaceWs_False [of xs] by (simp add: replaceWs_True)
  have ends: "joinWords (wordsIn xs) \<noteq> [] \<and> \<not> isSpace (hd (joinWords (wordsIn xs)))
              \<and> \<not> isSpace (last (joinWords (wordsIn xs)))"
    using False wordsIn_words by (intro joinWords_ends) auto
  have "trim (?L @ joinWords (wordsIn xs) @ trailing xs) = joinWords (wordsIn xs)"
    using ends by (intro trim_core) (auto simp: trailing_def space_is_space split: if_splits)
  then show ?thesis
    by (simp only: shape)
qed

lemma normalized_normalizedForm: "normalized s = normalizedForm s"
  by (simp add: normalized_def normalizedForm_def trim_replaceWs)

section \<open>Similarity\<close>

lemma splitWsFrom_nonempty: "splitWsFrom inRun cur s \<noteq> []"
  by (induction s arbitrary: inRun cur) auto

lemma splitWs_nonempty: "splitWs s \<noteq> []"
  by (simp add: splitWs_def splitWsFrom_nonempty)

lemma wordSet_union_nonempty:
  "set (splitWs (toLowerCase (codePoints a))) \<union> set (splitWs (toLowerCase (codePoints b))) \<noteq> {}"
  by (simp add: splitWs_nonempty)

lemma similarity_value:
  "similarity a b =
     Some (real (card (set (splitWs (toLowerCase (codePoints a))) \<inter> set (splitWs (toLowerCase (codePoints b)))))
           / real (card (set (splitWs (toLowerCase (codePoints a))) \<union> set (splitWs (toLowerCase (codePoints b))))))"
proof -
  have "{x \<in> set (splitWs (toLowerCase (codePoints a))). x \<in> set (splitWs (toLowerCase (codePoints b)))}
        = set (splitWs (toLowerCase (codePoints a))) \<inter> set (splitWs (toLowerCase (codePoints b)))"
    by blast
  moreover have "card (set (splitWs (toLowerCase (codePoints a))) \<union> set (splitWs (toLowerCase (codePoints b)))) \<noteq> 0"
    using wordSet_union_nonempty [of a b] by (simp del: Un_empty set_empty)
  ultimately show ?thesis
    by (simp add: similarity_def Let_def del: Un_empty set_empty)
qed

lemma similarity_sym: "similarity a b = similarity b a"
  by (simp add: similarity_value Int_commute Un_commute)

lemma similarity_range: "\<exists>v. similarity a b = Some v \<and> 0 \<le> v \<and> v \<le> 1"
proof -
  let ?A = "set (splitWs (toLowerCase (codePoints a)))" and ?B = "set (splitWs (toLowerCase (codePoints b)))"
  have le: "card (?A \<inter> ?B) \<le> card (?A \<union> ?B)"
    by (rule card_mono) auto
  have pos: "0 < card (?A \<union> ?B)"
    using wordSet_union_nonempty [of a b] by (simp add: card_gt_0_iff del: Un_empty set_empty)
  have "real (card (?A \<inter> ?B)) / real (card (?A \<union> ?B)) \<le> 1"
    using le pos by simp
  then show ?thesis
    by (simp add: similarity_value)
qed

lemma similarity_refl: "similarity a a = Some 1"
proof -
  have "card (set (splitWs (toLowerCase (codePoints a)))) \<noteq> 0"
    using splitWs_nonempty [of "toLowerCase (codePoints a)"] by simp
  then show ?thesis by (simp add: similarity_value)
qed

lemma wordless_pieces:
  assumes "wordsOf a = {}"
  shows "set (splitWs (toLowerCase (codePoints a))) = {[]}"
proof -
  have all: "\<And>w. w \<in> set (splitWs (toLowerCase (codePoints a))) \<Longrightarrow> w = []"
    using assms by (auto simp: wordsOf_def)
  obtain w ws where "splitWs (toLowerCase (codePoints a)) = w # ws"
    using splitWs_nonempty [of "toLowerCase (codePoints a)"] by (cases "splitWs (toLowerCase (codePoints a))") auto
  then have "[] \<in> set (splitWs (toLowerCase (codePoints a)))"
    using all [of w] by simp
  with all show ?thesis by auto
qed

lemma similarity_wordless:
  "wordsOf a = {} \<Longrightarrow> wordsOf b = {} \<Longrightarrow> similarity a b = Some 1"
  by (simp add: similarity_value wordless_pieces)

text \<open>
  Claim C8, as the code has it. The similarity of two texts is symmetric, is a number
  between 0 and 1 (never \<^verbatim>\<open>NaN\<close>), and is 1 for a text and itself. The union of the
  two sets of pieces is never empty, because splitting yields at least one piece, so the
  method has no case in which the score is set to 0: two texts without any word have
  the similarity 1.
\<close>

theorem similarity_jaccard:
  "similarity a b = similarity b a
   \<and> (\<exists>v. similarity a b = Some v \<and> 0 \<le> v \<and> v \<le> 1)
   \<and> similarity a a = Some 1
   \<and> set (splitWs (toLowerCase (codePoints a))) \<union> set (splitWs (toLowerCase (codePoints b))) \<noteq> {}
   \<and> (wordsOf a = {} \<and> wordsOf b = {} \<longrightarrow> similarity a b = Some 1)"
  using similarity_sym [of a b] similarity_range [of a b] similarity_refl [of a]
    wordSet_union_nonempty [of a b] similarity_wordless [of a b]
  by blast

text \<open>
  Claim C8 as stated fails for two empty texts (the empty list of characters): neither
  holds a word, so the union of
  their word sets is empty, and yet the method scores them 1, not 0, since each splits
  into the one empty piece.
\<close>

theorem similarity_empty_union_counterexample:
  "wordsOf [] \<union> wordsOf [] = {}
   \<and> splitWs (toLowerCase (codePoints [])) = [[]]
   \<and> similarity [] [] = Some 1
   \<and> similarity [] [] \<noteq> Some 0"
  by (simp add: wordsOf_def similarity_refl splitWs_def toLowerCase_def codePoints_def)

text \<open>
  The empty text and a single blank: neither holds a word, and their similarity is 1.
\<close>

lemma blank_pieces: "splitWs (toLowerCase (codePoints '' '')) = [[], []]"
  by code_simp

theorem similarity_jaccard_witness:
  "wordsOf [] = {} \<and> wordsOf '' '' = {} \<and> similarity [] '' '' = Some 1"
proof -
  have a: "wordsOf [] = {}"
    by (simp add: wordsOf_def splitWs_def toLowerCase_def codePoints_def)
  have b: "wordsOf '' '' = {}"
    by (simp add: wordsOf_def blank_pieces)
  show ?thesis
    using similarity_jaccard [of "[]" "'' ''"] a b by blast
qed

section \<open>Quiet hours\<close>

lemma hour_bound:
  fixes m :: int
  assumes "0 \<le> m" "m < 86400000"
  shows "0 \<le> m div 3600000 \<and> m div 3600000 < 24"
proof -
  have "m div 3600000 \<le> 86399999 div 3600000"
    using assms by (intro zdiv_mono1) simp_all
  moreover have "0 \<le> m div 3600000"
    using assms by (simp add: pos_imp_zdiv_nonneg_iff)
  ultimately show ?thesis by simp
qed

lemma getHours_range: "0 \<le> getHours env \<and> getHours env < 24"
  using hour_bound [of "(clock env + tzOffsetMs env) mod 86400000"]
  by (simp add: getHours_def dayMs_def)

text \<open>
  Claim C5. With \<open>h\<close> the hour of the local clock: an overnight window (start after end)
  is active iff \<open>h\<close> is at or after the start or before the end, any other window iff
  \<open>h\<close> is at or after the start and before the end. With the window from 23 to 6 the
  hours 0 and 23 are quiet and the hour 12 is not.
\<close>

theorem isQuietHours_membership:
  "isQuietHours safety env =
     (if quietHoursStart safety > quietHoursEnd safety
      then getHours env \<ge> quietHoursStart safety \<or> getHours env < quietHoursEnd safety
      else quietHoursStart safety \<le> getHours env \<and> getHours env < quietHoursEnd safety)
   \<and> 0 \<le> getHours env \<and> getHours env < 24
   \<and> isQuietHours (DEFAULT_SAFETY\<lparr>quietHoursStart := 23, quietHoursEnd := 6\<rparr>)
        \<lparr>clock = 0, tzOffsetMs = 0, mathRandom = 0\<rparr>
   \<and> isQuietHours (DEFAULT_SAFETY\<lparr>quietHoursStart := 23, quietHoursEnd := 6\<rparr>)
        \<lparr>clock = 23 * 3600000, tzOffsetMs = 0, mathRandom = 0\<rparr>
   \<and> \<not> isQuietHours (DEFAULT_SAFETY\<lparr>quietHoursStart := 23, quietHoursEnd := 6\<rparr>)
        \<lparr>clock = 12 * 3600000, tzOffsetMs = 0, mathRandom = 0\<rparr>"
proof -
  have gen: "isQuietHours safety env =
     (if quietHoursStart safety > quietHoursEnd safety
      then getHours env \<ge> quietHoursStart safety \<or> getHours env < quietHoursEnd safety
      else quietHoursStart safety \<le> getHours env \<and> getHours env < quietHoursEnd safety)"
    by (simp add: isQuietHours_def Let_def)
  have h0: "getHours \<lparr>clock = 0, tzOffsetMs = 0, mathRandom = 0\<rparr> = 0"
    by (simp add: getHours_def dayMs_def)
  have h23: "getHours \<lparr>clock = 82800000, tzOffsetMs = 0, mathRandom = 0\<rparr> = 23"
    by (simp add: getHours_def dayMs_def)
  have h12: "getHours \<lparr>clock = 43200000, tzOffsetMs = 0, mathRandom = 0\<rparr> = 12"
    by (simp add: getHours_def dayMs_def)
  show ?thesis
    using gen getHours_range [of env]
    by (simp add: isQuietHours_def Let_def h0 h23 h12 DEFAULT_SAFETY_def)
qed

section \<open>The verdict of checkSafety\<close>

lemma checkDailyReset_fields:
  "postHistory (checkDailyReset env s) = postHistory s"
  "lastPostAt (checkDailyReset env s) = lastPostAt s"
  "rateLimit (checkDailyReset env s) = rateLimit s"
  "dailyPostDate (checkDailyReset env s) = getTodayString env"
  "dailyPostCount (checkDailyReset env s) =
     (if dailyPostDate s = getTodayString env then dailyPostCount s else 0)"
  by (simp_all add: checkDailyReset_def Let_def)

lemma checkSafety_store: "snd (checkSafety safety env content s) = checkDailyReset env s"
  by (simp add: checkSafety_def Let_def)

lemma checkSafety_safe:
  "safe (fst (checkSafety safety env content s)) = (errors (fst (checkSafety safety env content s)) = [])"
  by (simp add: checkSafety_def Let_def)

lemma windowPredicates:
  "(\<lambda>h. h_hash h = hashContent content
        \<and> h_timestamp h > clock env - dedupeWindowDays safety * 24 * 60 * 60 * 1000)
   = duplicateInWindow safety env content"
  "(\<lambda>h. h_timestamp h > clock env - dedupeWindowDays safety * 24 * 60 * 60 * 1000
        \<and> (case similarity content (h_text h) of None \<Rightarrow> False | Some v \<Rightarrow> v > 0.8))
   = similarInWindow safety env content"
  by (rule ext, simp add: duplicateInWindow_def similarInWindow_def dayMs_def mult.commute)+

lemma checkSafety_errors:
  "errors (fst (checkSafety safety env content s)) =
     (case rateLimit s of
        None \<Rightarrow> []
      | Some rl \<Rightarrow>
          if remaining rl = 0 \<and> resetAt rl > clock env
          then [RateLimitExceeded (resetAt rl)] else [])
     @ (if dailyPostCount (checkDailyReset env s) \<ge> maxPostsPerDay safety
        then [DailyLimitReached (maxPostsPerDay safety)] else [])
     @ (case find (duplicateInWindow safety env content) (postHistory s) of
          None \<Rightarrow> []
        | Some d \<Rightarrow> [DuplicateContent (timeAgo env (h_timestamp d))])
     @ (if countMarked (CHR ''#'') content > 5 then [ExcessiveHashtags] else [])"
  unfolding checkSafety_def Let_def windowPredicates
  by (simp add: checkDailyReset_fields)

lemma checkSafety_warnings:
  "warnings (fst (checkSafety safety env content s)) =
     (if dailyPostCount (checkDailyReset env s) \<ge> maxPostsPerDay safety then []
      else if dailyPostCount (checkDailyReset env s) \<ge> maxPostsPerDay safety - 2
      then [ApproachingDailyLimit (dailyPostCount (checkDailyReset env s)) (maxPostsPerDay safety)]
      else [])
     @ (if enableQuietHours safety \<and> isQuietHours safety env then [QuietHoursActive] else [])
     @ (case find (similarInWindow safety env content) (postHistory s) of
          None \<Rightarrow> []
        | Some m \<Rightarrow>
            if h_hash m \<noteq> hashContent content
            then [VerySimilar (map_option (\<lambda>v. round (v * 100)) (similarity content (h_text m)))]
            else [])
     @ (if countMarked (CHR ''#'') content > 3 then [TooManyHashtags (countMarked (CHR ''#'') content)]
        else [])
     @ (if hasUrlShortener content then [UrlShorteners] else [])
     @ (if countMarked (CHR ''@'') content > 5 then [ManyMentions (countMarked (CHR ''@'') content)]
        else [])
     @ (case lastPostAt s of
          None \<Rightarrow> []
        | Some lastPost \<Rightarrow>
            if lastPost = 0 then []
            else if real_of_int (clock env - lastPost) / 60000
                    < real_of_int (minIntervalMinutes safety)
            then [PostedRecently (round (real_of_int (clock env - lastPost) / 60000))
                    \<lceil>real_of_int (minIntervalMinutes safety)
                      - real_of_int (clock env - lastPost) / 60000\<rceil>]
            else [])"
  unfolding checkSafety_def Let_def windowPredicates
  by (simp add: checkDailyReset_fields)

lemma checkSafety_suggestions:
  "suggestions (fst (checkSafety safety env content s)) =
     (case find (similarInWindow safety env content) (postHistory s) of
        None \<Rightarrow> []
      | Some m \<Rightarrow> if h_hash m \<noteq> hashContent content then [ConsiderRephrasing] else [])
     @ (if hasUrlShortener content then [UseFullUrls] else [])"
  unfolding checkSafety_def Let_def windowPredicates
  by (simp add: checkDailyReset_fields)

section \<open>Rounding to doubles\<close>

lemma roundHalfEven_of_int: "roundHalfEven (real_of_int k) = k"
  by (simp add: roundHalfEven_def)

lemma roundHalfEven_bounds: "\<lfloor>y\<rfloor> \<le> roundHalfEven y \<and> roundHalfEven y \<le> \<lfloor>y\<rfloor> + 1"
  by (simp add: roundHalfEven_def Let_def)

lemma roundHalfEven_mono:
  assumes "y \<le> z"
  shows "roundHalfEven y \<le> roundHalfEven z"
proof (cases "\<lfloor>y\<rfloor> = \<lfloor>z\<rfloor>")
  case True
  with assms show ?thesis
    by (auto simp: roundHalfEven_def Let_def)
next
  case False
  with assms have "\<lfloor>y\<rfloor> + 1 \<le> \<lfloor>z\<rfloor>"
    using floor_mono [of y z] by linarith
  with roundHalfEven_bounds [of y] roundHalfEven_bounds [of z] show ?thesis
    by linarith
qed

lemma ilog2_bounds:
  assumes "0 < x"
  shows "2 powi ilog2 x \<le> x \<and> x < 2 powi (ilog2 x + 1)"
proof (cases "1 \<le> x")
  case True
  then have pos: "0 < \<lfloor>x\<rfloor>" by simp
  have b1: "bitlen \<lfloor>x\<rfloor> \<ge> 1"
    using compute_bitlen [of "\<lfloor>x\<rfloor>"] bitlen_nonneg [of "\<lfloor>x\<rfloor> div 2"] pos by simp
  from bitlen_bounds [OF pos]
  have lo: "(2::int) ^ nat (bitlen \<lfloor>x\<rfloor> - 1) \<le> \<lfloor>x\<rfloor>" and hi: "\<lfloor>x\<rfloor> < (2::int) ^ nat (bitlen \<lfloor>x\<rfloor>)"
    by simp_all
  have "real_of_int ((2::int) ^ nat (bitlen \<lfloor>x\<rfloor> - 1)) \<le> x"
    using lo by (meson le_floor_iff)
  then have l: "2 powi (bitlen \<lfloor>x\<rfloor> - 1) \<le> x"
    using b1 by (simp add: power_int_def)
  have "x < real_of_int ((2::int) ^ nat (bitlen \<lfloor>x\<rfloor>))"
    using hi by (meson floor_less_iff)
  then have h: "x < 2 powi (bitlen \<lfloor>x\<rfloor>)"
    using b1 by (simp add: power_int_def)
  from l h True show ?thesis by (simp add: ilog2_def)
next
  case False
  define m where "m = \<lceil>1 / x\<rceil>"
  define k where "k = bitlen (m - 1)"
  from False assms have "1 < 1 / x" by simp
  then have m2: "2 \<le> m" unfolding m_def by linarith
  then have pos: "0 < m - 1" by simp
  have k1: "k \<ge> 1"
    unfolding k_def using compute_bitlen [of "m - 1"] bitlen_nonneg [of "(m - 1) div 2"] pos by simp
  from bitlen_bounds [OF pos]
  have lo: "(2::int) ^ nat (k - 1) \<le> m - 1" and hi: "m - 1 < (2::int) ^ nat k"
    by (simp_all add: k_def)
  have "1 / x \<le> real_of_int m" unfolding m_def by simp
  also have "real_of_int m \<le> real_of_int (2 ^ nat k)"
    using hi by linarith
  finally have "1 / x \<le> 2 ^ nat k" by simp
  then have "1 \<le> 2 ^ nat k * x"
    using assms by (simp add: divide_le_eq)
  then have "1 / 2 ^ nat k \<le> x"
    by (simp add: divide_le_eq mult.commute)
  then have l: "2 powi (- k) \<le> x"
    using k1 by (simp add: power_int_def field_simps)
  have "real_of_int m - 1 < 1 / x" unfolding m_def by linarith
  moreover have "real_of_int (2 ^ nat (k - 1)) \<le> real_of_int m - 1"
    using lo by linarith
  ultimately have "2 ^ nat (k - 1) < 1 / x" by simp
  then have "2 ^ nat (k - 1) * x < 1"
    using assms by (simp add: less_divide_eq)
  then have "x < 1 / 2 ^ nat (k - 1)"
    by (simp add: less_divide_eq mult.commute)
  moreover have "(2::real) powi (k - 1) = 2 ^ nat (k - 1)"
    using k1 by (simp add: power_int_def)
  moreover have "(2::real) powi (- k + 1) = inverse (2 powi (k - 1))"
    using power_int_minus [of "2::real" "k - 1"] by simp
  ultimately have h: "x < 2 powi (- k + 1)"
    by (simp add: inverse_eq_divide)
  from l h False assms show ?thesis
    by (simp add: ilog2_def m_def k_def)
qed

lemma ilog2_mono:
  assumes "0 < x" "x \<le> y"
  shows "ilog2 x \<le> ilog2 y"
proof -
  have "2 powi ilog2 x \<le> x" using ilog2_bounds [OF assms(1)] by simp
  also have "x \<le> y" by fact
  also have "y < 2 powi (ilog2 y + 1)" using ilog2_bounds [of y] assms by simp
  finally have "(2::real) powi ilog2 x < 2 powi (ilog2 y + 1)" .
  show ?thesis
  proof (rule ccontr)
    assume "\<not> ilog2 x \<le> ilog2 y"
    then have "ilog2 y + 1 \<le> ilog2 x" by simp
    then have "(2::real) powi (ilog2 y + 1) \<le> 2 powi ilog2 x"
      by (intro power_int_increasing) simp_all
    with \<open>(2::real) powi ilog2 x < 2 powi (ilog2 y + 1)\<close> show False by simp
  qed
qed

lemma ulp_pos: "0 < ulp x"
  by (simp add: ulp_def)

lemma toDouble_zero: "toDouble 0 = 0"
  by (simp add: toDouble_def roundHalfEven_def)

lemma toDouble_nonneg:
  assumes "0 \<le> x"
  shows "0 \<le> toDouble x"
proof -
  have "0 \<le> x / ulp x" using assms ulp_pos [of x] by simp
  then have "roundHalfEven 0 \<le> roundHalfEven (x / ulp x)" by (rule roundHalfEven_mono)
  then have "0 \<le> roundHalfEven (x / ulp x)" by (simp add: roundHalfEven_def)
  then show ?thesis using ulp_pos [of x] by (simp add: toDouble_def)
qed


lemma ulp_abs: "0 \<le> x \<Longrightarrow> ulp x = 2 powi (max (ilog2 x) (- 1022) - 52)"
  by (simp add: ulp_def)

lemma toDouble_upper:
  assumes "0 < x"
  shows "toDouble x \<le> 2 powi (max (ilog2 x) (- 1022) + 1)"
proof -
  define e where "e = max (ilog2 x) (- 1022)"
  have u: "ulp x = 2 powi (e - 52)" using assms by (simp add: ulp_abs e_def)
  have "x < 2 powi (ilog2 x + 1)" using ilog2_bounds [OF assms] by simp
  also have "(2::real) powi (ilog2 x + 1) \<le> 2 powi (e + 1)"
    by (intro power_int_increasing) (simp_all add: e_def)
  finally have "x / ulp x \<le> 2 powi (e + 1) / ulp x"
    using ulp_pos [of x] by (simp add: divide_right_mono)
  also have "2 powi (e + 1) / ulp x = 2 powi ((e + 1) - (e - 52))"
    unfolding u by (subst power_int_diff) simp_all
  also have "\<dots> = real_of_int (2 ^ 53)" by simp
  finally have "roundHalfEven (x / ulp x) \<le> roundHalfEven (real_of_int (2 ^ 53))"
    by (rule roundHalfEven_mono)
  then have "roundHalfEven (x / ulp x) \<le> 2 ^ 53"
    by (simp only: roundHalfEven_of_int)
  then have "real_of_int (roundHalfEven (x / ulp x)) \<le> real_of_int (2 ^ 53)"
    by (simp only: of_int_le_iff)
  then have "real_of_int (roundHalfEven (x / ulp x)) \<le> 2 powi 53"
    by simp
  then have "toDouble x \<le> 2 powi 53 * 2 powi (e - 52)"
    unfolding toDouble_def u by (intro mult_right_mono) simp_all
  also have "(2::real) powi 53 * 2 powi (e - 52) = 2 powi (53 + (e - 52))"
    by (subst power_int_add) simp_all
  finally show ?thesis by (simp add: e_def add.commute)
qed

lemma toDouble_lower:
  assumes "0 < x" and "- 1022 \<le> ilog2 x"
  shows "2 powi ilog2 x \<le> toDouble x"
proof -
  define e where "e = ilog2 x"
  have u: "ulp x = 2 powi (e - 52)" using assms by (simp add: ulp_abs e_def max_def)
  have "(2::real) powi e / ulp x = 2 powi (e - (e - 52))"
    unfolding u by (subst power_int_diff) simp_all
  then have "real_of_int (2 ^ 52) = 2 powi e / ulp x" by simp
  also have "\<dots> \<le> x / ulp x"
    using ilog2_bounds [OF assms(1)] ulp_pos [of x] by (simp add: divide_right_mono e_def)
  finally have "roundHalfEven (real_of_int (2 ^ 52)) \<le> roundHalfEven (x / ulp x)"
    by (rule roundHalfEven_mono)
  then have "2 ^ 52 \<le> roundHalfEven (x / ulp x)"
    by (simp only: roundHalfEven_of_int)
  then have "real_of_int (2 ^ 52) \<le> real_of_int (roundHalfEven (x / ulp x))"
    by (simp only: of_int_le_iff)
  then have "2 powi 52 \<le> real_of_int (roundHalfEven (x / ulp x))"
    by simp
  then have "2 powi 52 * 2 powi (e - 52) \<le> toDouble x"
    unfolding toDouble_def u by (intro mult_right_mono) simp_all
  moreover have "(2::real) powi 52 * 2 powi (e - 52) = 2 powi (52 + (e - 52))"
    by (subst power_int_add) simp_all
  ultimately show ?thesis by (simp add: e_def)
qed

lemma toDouble_mono:
  assumes "0 \<le> x" and "x \<le> y"
  shows "toDouble x \<le> toDouble y"
proof (cases "x = 0")
  case True
  with assms toDouble_nonneg [of y] show ?thesis by (simp add: toDouble_zero)
next
  case False
  with assms have x: "0 < x" and y: "0 < y" by simp_all
  have le: "ilog2 x \<le> ilog2 y" using x assms(2) by (rule ilog2_mono)
  show ?thesis
  proof (cases "max (ilog2 x) (- 1022) = max (ilog2 y) (- 1022)")
    case True
    then have u: "ulp x = ulp y" using x y by (simp add: ulp_abs)
    have "x / ulp y \<le> y / ulp y"
      using assms(2) ulp_pos [of y] by (simp add: divide_right_mono)
    then have "roundHalfEven (x / ulp y) \<le> roundHalfEven (y / ulp y)"
      by (rule roundHalfEven_mono)
    then show ?thesis
      unfolding toDouble_def u using ulp_pos [of y] by (intro mult_right_mono) simp_all
  next
    case False
    with le have big: "- 1022 \<le> ilog2 y" and lt: "max (ilog2 x) (- 1022) + 1 \<le> ilog2 y"
      by (simp_all add: max_def split: if_splits)
    have "toDouble x \<le> 2 powi (max (ilog2 x) (- 1022) + 1)"
      using x by (rule toDouble_upper)
    also have "\<dots> \<le> 2 powi ilog2 y"
      using lt by (intro power_int_increasing) simp_all
    also have "\<dots> \<le> toDouble y"
      using y big by (rule toDouble_lower)
    finally show ?thesis .
  qed
qed





lemma addNumbers_lower:
  assumes "0 \<le> a" and "0 \<le> b"
  shows "a \<le> addNumbers a b"
proof (cases "toDouble a = a")
  case True
  have "toDouble a \<le> toDouble (a + b)"
    using assms by (intro toDouble_mono) simp_all
  with True show ?thesis by (simp add: addNumbers_def)
next
  case False
  with assms show ?thesis by (simp add: addNumbers_def)
qed



lemma jitterMsOf_nonneg:
  assumes "0 \<le> r" and "0 \<le> j"
  shows "0 \<le> jitterMsOf r j"
proof -
  have "0 \<le> toDouble (r * real_of_int j)"
    using assms by (intro toDouble_nonneg) simp
  then have "0 \<le> toDouble (toDouble (r * real_of_int j) * 60)"
    by (intro toDouble_nonneg) simp
  then show ?thesis
    unfolding jitterMsOf_def by (intro toDouble_nonneg) simp
qed


lemma half_of_thirty_minutes:
  "jitterMsOf (1 / 2) 30 = 900000"
  "addNumbers 1740000 900000 = 2640000"
  "addNumbers 600000 900000 = 1500000"
  by code_simp+

lemma half_of_minus_thirty_minutes:
  "jitterMsOf (1 / 2) (- 30) = - 900000"
  "addNumbers 600000 (- 900000) = - 300000"
  by code_simp+


section \<open>The result of calculateDelay\<close>

lemma rateLimitDelay_delayMs:
  "0 \<le> delayMs d \<Longrightarrow>
   delayMs (rateLimitDelay env s d) = max (delayMs d) (cooldownRemaining env s)"
  by (simp add: rateLimitDelay_def cooldownRemaining_def split: option.splits)

lemma minIntervalDelay_delayMs:
  "0 \<le> delayMs d \<Longrightarrow>
   delayMs (minIntervalDelay safety env s d) = max (delayMs d) (intervalRemaining safety env s)"
  by (simp add: minIntervalDelay_def intervalRemaining_def Let_def split: option.splits)

lemma quietHoursDelay_delayMs:
  "0 \<le> delayMs d \<Longrightarrow>
   delayMs (quietHoursDelay safety env d) = max (delayMs d) (quietRemaining safety env)"
  by (simp add: quietHoursDelay_def quietRemaining_def Let_def)

lemma beforeJitter_delayMs:
  "delayMs (quietHoursDelay safety env (minIntervalDelay safety env s
       (rateLimitDelay env s \<lparr>delayMs = 0, reason = None\<rparr>)))
   = baseDelay safety env s"
proof -
  let ?d1 = "rateLimitDelay env s \<lparr>delayMs = 0, reason = None\<rparr>"
  let ?d2 = "minIntervalDelay safety env s ?d1"
  have 1: "delayMs ?d1 = max 0 (cooldownRemaining env s)"
    by (simp add: rateLimitDelay_delayMs)
  then have "0 \<le> delayMs ?d1"
    by simp
  then have 2: "delayMs ?d2 = max (delayMs ?d1) (intervalRemaining safety env s)"
    by (rule minIntervalDelay_delayMs)
  then have "0 \<le> delayMs ?d2"
    using \<open>0 \<le> delayMs ?d1\<close> by (simp add: le_max_iff_disj)
  then have "delayMs (quietHoursDelay safety env ?d2)
             = max (delayMs ?d2) (quietRemaining safety env)"
    by (rule quietHoursDelay_delayMs)
  then show ?thesis
    by (simp only: 1 2 baseDelay_def)
qed

lemma calculateDelay_delayMs:
  "delayMs (calculateDelay safety env customJitter s) =
     (if enableJitter safety \<and> baseDelay safety env s > 0
      then addNumbers (baseDelay safety env s)
             (jitterMsOf (mathRandom env) (jitterOf safety customJitter))
      else baseDelay safety env s)"
  unfolding calculateDelay_def
  by (simp add: addJitter_def beforeJitter_delayMs jitterOf_def jitterMsOf_def Let_def)

lemma rateLimitDelay_reason:
  "reason (rateLimitDelay env s \<lparr>delayMs = 0, reason = None\<rparr>)
   = (if isExhausted env s then Some ''Rate limit cooldown'' else None)"
  by (simp add: rateLimitDelay_def isExhausted_def split: option.splits)

lemma later_steps_keep_reason:
  "reason d = Some r \<Longrightarrow> reason (minIntervalDelay safety env s d) = Some r"
  "reason d = Some r \<Longrightarrow> reason (quietHoursDelay safety env d) = Some r"
  "reason (addJitter safety env customJitter d) = reason d"
  by (simp_all add: minIntervalDelay_def quietHoursDelay_def addJitter_def Let_def
        split: option.splits)

lemma calculateDelay_reason_exhausted:
  "isExhausted env s \<Longrightarrow>
   reason (calculateDelay safety env customJitter s) = Some ''Rate limit cooldown''"
  unfolding calculateDelay_def
  by (simp add: later_steps_keep_reason rateLimitDelay_reason)



lemma cooldown_le_baseDelay: "cooldownRemaining env s \<le> baseDelay safety env s"
  by (simp add: baseDelay_def le_max_iff_disj)


lemma rateLimit_error_iff:
  "(\<exists>t. RateLimitExceeded t \<in> set (errors (fst (checkSafety safety env content s))))
   = (\<exists>rl. rateLimit s = Some rl \<and> remaining rl = 0 \<and> resetAt rl > clock env)"
proof (cases "rateLimit s")
  case None
  then show ?thesis
    by (auto simp: checkSafety_errors split: option.splits if_splits)
next
  case (Some rl)
  then show ?thesis
    by (auto simp: checkSafety_errors split: option.splits if_splits)
qed

lemma baseDelay_checkDailyReset:
  "baseDelay safety env (checkDailyReset env s) = baseDelay safety env s"
  by (simp add: baseDelay_def cooldownRemaining_def intervalRemaining_def checkDailyReset_fields)

section \<open>The paths of post\<close>

lemma post_forced:
  "o_force options \<Longrightarrow> post safety client env options s = submit client env options s"
  by (simp add: post_def Let_def)

lemma post_unforced:
  "\<not> o_force options \<Longrightarrow>
   post safety client env options s =
     (if \<not> safe (fst (checkSafety safety env (o_text options) s))
      then (Inr (emptyResult\<lparr>success := False, blocked := Some True,
                  blockReason := Some (JoinedErrors
                    (errors (fst (checkSafety safety env (o_text options) s))))\<rparr>),
            checkDailyReset env s)
      else if 0 < delayMs (calculateDelay safety env (o_jitterMinutes options)
                     (checkDailyReset env s))
      then (Inr (emptyResult\<lparr>success := False, delayed := Some True,
                  delayMinutes := Some \<lceil>toDouble (delayMs (calculateDelay safety env
                     (o_jitterMinutes options) (checkDailyReset env s)) / 60000)\<rceil>,
                  scheduledFor := Some (dateOf (addNumbers (real_of_int (clock env))
                     (delayMs (calculateDelay safety env (o_jitterMinutes options)
                         (checkDailyReset env s))))),
                  blockReason := map_option ReasonText (reason (calculateDelay safety env
                     (o_jitterMinutes options) (checkDailyReset env s)))\<rparr>),
            checkDailyReset env s)
      else submit client env options (checkDailyReset env s))"
proof -
  obtain check s1 where c: "checkSafety safety env (o_text options) s = (check, s1)"
    by (cases "checkSafety safety env (o_text options) s")
  then have s1: "s1 = checkDailyReset env s"
    using checkSafety_store [of safety env "o_text options" s] by simp
  assume "\<not> o_force options"
  then show ?thesis
    by (simp add: post_def Let_def c s1)
qed

lemma submit_failed:
  "client (tweetDataOf options) = Failed err \<Longrightarrow>
   submit client env options s =
     (if err_code err = Some 429 \<or> err_rateLimitError err
      then (Inr (emptyResult\<lparr>success := False, blocked := Some True,
                  blockReason := Some (ReasonText ''Rate limit exceeded''),
                  rateLimitRemaining := Some 0,
                  rateLimitReset := Some (reportedReset env err)\<rparr>),
            s\<lparr>rateLimit := Some \<lparr>remaining = 0, limit = reportedLimit err,
                                  resetAt = reportedReset env err\<rparr>\<rparr>)
      else (Inl err, s))"
  by (simp add: submit_def reportedReset_def reportedLimit_def Let_def)

lemma submit_tweeted:
  "client (tweetDataOf options) = Tweeted tid \<Longrightarrow>
   snd (submit client env options s)
     = recordPost env (o_text options) tid (o_mediaIds options) s"
  by (simp add: submit_def Let_def)

lemma recordPost_counter:
  "dailyPostCount (recordPost env content tid media s) = dailyPostCount s + 1"
  "dailyPostDate (recordPost env content tid media s) = dailyPostDate s"
  by (simp_all add: recordPost_def Let_def)

lemma post_reaching:
  "reachesPublisher safety env options s \<Longrightarrow>
   post safety client env options s
     = submit client env options (if o_force options then s else checkDailyReset env s)"
  by (cases "o_force options")
     (auto simp: reachesPublisher_def post_forced post_unforced checkSafety_store)

section \<open>Evaluations at concrete instants\<close>

lemma noon_not_quiet: "\<not> isQuietHours DEFAULT_SAFETY (envAt noon)"
  by (simp add: isQuietHours_def getHours_def envAt_def noon_def dayMs_def DEFAULT_SAFETY_def)

lemma two_in_the_afternoon_not_quiet:
  "\<not> isQuietHours DEFAULT_SAFETY (envAt (noon + 7200000))"
  by (simp add: isQuietHours_def getHours_def envAt_def noon_def dayMs_def DEFAULT_SAFETY_def)

lemma next_noon_clear:
  "baseDelay DEFAULT_SAFETY (envAt (dayMs + noon)) s = max (max 0 (cooldownRemaining (envAt (dayMs + noon)) s))
      (intervalRemaining DEFAULT_SAFETY (envAt (dayMs + noon)) s)"
proof -
  have "\<not> isQuietHours DEFAULT_SAFETY (envAt (dayMs + noon))"
    by (simp add: isQuietHours_def getHours_def envAt_def noon_def dayMs_def DEFAULT_SAFETY_def)
  then show ?thesis
    by (simp add: baseDelay_def quietRemaining_def)
qed

lemma baseDelay_posted_a_minute_ago:
  "baseDelay DEFAULT_SAFETY (envAt noon) (storeDefaults\<lparr>lastPostAt := Some (noon - 60000)\<rparr>)
   = 1740000"
  by (simp add: baseDelay_def cooldownRemaining_def intervalRemaining_def quietRemaining_def
        noon_not_quiet storeDefaults_def)
     (simp add: envAt_def noon_def DEFAULT_SAFETY_def)

lemma baseDelay_cooling_down:
  "baseDelay safety (envAt noon)
     (storeDefaults\<lparr>rateLimit := Some \<lparr>remaining = 0, limit = 100, resetAt = noon + 600000\<rparr>\<rparr>)
   = max 600000 (quietRemaining safety (envAt noon))"
  by (simp add: baseDelay_def cooldownRemaining_def intervalRemaining_def storeDefaults_def envAt_def)

lemma today_at_noon: "getTodayString (envAt noon) = IsoDate 0"
  by (simp add: getTodayString_def envAt_def noon_def dayMs_def)


lemma baseDelay_nothing_pending: "baseDelay DEFAULT_SAFETY (envAt noon) storeDefaults = 0"
  by (simp add: baseDelay_def cooldownRemaining_def intervalRemaining_def quietRemaining_def
        noon_not_quiet storeDefaults_def)

lemma hi_is_safe: "safe (fst (checkSafety DEFAULT_SAFETY (envAt noon) ''Hi'' storeDefaults))"
  by (simp add: checkSafety_safe checkSafety_errors checkDailyReset_fields)
     (simp add: storeDefaults_def DEFAULT_SAFETY_def)

lemma hi_reaches: "reachesPublisher DEFAULT_SAFETY (envAt noon) (postHi False) storeDefaults"
  using hi_is_safe
  by (simp add: reachesPublisher_def postHi_def checkSafety_store calculateDelay_delayMs
        baseDelay_checkDailyReset baseDelay_nothing_pending)

lemma stale_store_next_noon:
  "safe (fst (checkSafety DEFAULT_SAFETY (envAt (dayMs + noon)) ''Hi''
      (storeDefaults\<lparr>dailyPostCount := 5, dailyPostDate := IsoDate 0\<rparr>)))"
  "getTodayString (envAt (dayMs + noon)) = IsoDate 1"
  "baseDelay DEFAULT_SAFETY (envAt (dayMs + noon))
      (storeDefaults\<lparr>dailyPostCount := 5, dailyPostDate := IsoDate 0\<rparr>) = 0"
proof -
  show t: "getTodayString (envAt (dayMs + noon)) = IsoDate 1"
    by (simp add: getTodayString_def envAt_def dayMs_def noon_def)
  show "safe (fst (checkSafety DEFAULT_SAFETY (envAt (dayMs + noon)) ''Hi''
      (storeDefaults\<lparr>dailyPostCount := 5, dailyPostDate := IsoDate 0\<rparr>)))"
    by (simp add: checkSafety_safe checkSafety_errors checkDailyReset_fields t)
       (simp add: storeDefaults_def DEFAULT_SAFETY_def)
  show "baseDelay DEFAULT_SAFETY (envAt (dayMs + noon))
      (storeDefaults\<lparr>dailyPostCount := 5, dailyPostDate := IsoDate 0\<rparr>) = 0"
    by (simp add: next_noon_clear cooldownRemaining_def intervalRemaining_def storeDefaults_def)
qed

lemma stale_store_reaches:
  "reachesPublisher DEFAULT_SAFETY (envAt (dayMs + noon)) (postHi False)
     (storeDefaults\<lparr>dailyPostCount := 5, dailyPostDate := IsoDate 0\<rparr>)"
  using stale_store_next_noon(1)
  by (simp add: reachesPublisher_def postHi_def checkSafety_store calculateDelay_delayMs
        baseDelay_checkDailyReset stale_store_next_noon(3))

lemma stale_store_rollover:
  "checkDailyReset (envAt (dayMs + noon))
     (storeDefaults\<lparr>dailyPostCount := 5, dailyPostDate := IsoDate 0\<rparr>)
   = storeDefaults\<lparr>dailyPostCount := 0, dailyPostDate := IsoDate 1\<rparr>"
  by (simp add: checkDailyReset_def stale_store_next_noon(2) storeDefaults_def)

section \<open>Two similar posts\<close>

lemma hash_five_words: "hashContent ''a b c d e'' = ''2438b89b82c22b3d063b2ee165c033c0''"
  by code_simp

lemma hash_six_words: "hashContent ''a b c d e f'' = ''6b7a59f92f21d297c0030fcfa69862eb''"
  by code_simp

lemma hashes_differ: "hashContent ''a b c d e f'' \<noteq> hashContent ''a b c d e''"
  by (simp add: hash_five_words hash_six_words)

lemma split_five_words:
  "splitWs (toLowerCase (codePoints ''a b c d e'')) = [[97], [98], [99], [100], [101]]"
  by code_simp

lemma split_six_words:
  "splitWs (toLowerCase (codePoints ''a b c d e f''))
   = [[97], [98], [99], [100], [101], [102]]"
  by code_simp

lemma similarity_five_six:
  "similarity ''a b c d e'' ''a b c d e f'' = Some (5 / 6)"
proof -
  let ?A = "set [[97], [98], [99], [100], [101 :: int]]"
  let ?B = "set [[97], [98], [99], [100], [101], [102 :: int]]"
  have i: "?A \<inter> ?B = ?A" and u: "?A \<union> ?B = ?B"
    by auto
  have "card ?A = 5" and "card ?B = 6"
    by simp_all
  then show ?thesis
    unfolding similarity_value split_five_words split_six_words i u by simp
qed

lemma similarity_six_five:
  "similarity ''a b c d e f'' ''a b c d e'' = Some (5 / 6)"
  using similarity_five_six by (simp add: similarity_sym)

lemma first_match:
  "(\<exists>i<length xs. P (xs ! i) \<and> Q (xs ! i) \<and> (\<forall>j<i. \<not> P (xs ! j)))
   = (case find P xs of None \<Rightarrow> False | Some x \<Rightarrow> Q x)"
proof (cases "find P xs")
  case None
  then have "\<And>i. i < length xs \<Longrightarrow> \<not> P (xs ! i)"
    by (simp add: find_None_iff)
  with None show ?thesis by auto
next
  case (Some x)
  then obtain i0 where i0: "i0 < length xs" "P (xs ! i0)" "x = xs ! i0" "\<forall>j<i0. \<not> P (xs ! j)"
    by (auto simp: find_Some_iff)
  have "Q x" if "i < length xs" "P (xs ! i)" "Q (xs ! i)" "\<forall>j<i. \<not> P (xs ! j)" for i
  proof -
    have "\<not> i < i0" using i0(4) that(2) by blast
    moreover have "\<not> i0 < i" using that(4) i0(2) by blast
    ultimately have "i = i0" by simp
    with that(3) i0(3) show ?thesis by simp
  qed
  moreover have "\<exists>i<length xs. P (xs ! i) \<and> Q (xs ! i) \<and> (\<forall>j<i. \<not> P (xs ! j))" if "Q x"
    using i0 that by blast
  ultimately show ?thesis
    using Some by auto
qed

lemma history_onePosted: "postHistory onePosted = [firstPost]"
  by (simp add: onePosted_def recordPost_def Let_def storeDefaults_def envAt_def firstPost_def)

lemma history_twoPosted: "postHistory twoPosted = [firstPost, secondPost]"
  unfolding twoPosted_def
  by (simp add: recordPost_def [of _ _ _ _ onePosted] Let_def history_onePosted)
     (simp add: envAt_def firstPost_def secondPost_def noon_def)

lemma twoPosted_fields:
  "lastPostAt twoPosted = Some (noon + 3600000)" "rateLimit twoPosted = None"
  "dailyPostCount twoPosted = 2" "dailyPostDate twoPosted = NoDate"
  by (simp_all add: twoPosted_def onePosted_def recordPost_def Let_def storeDefaults_def envAt_def)

lemma firstPost_similar_to_itself:
  "similarInWindow DEFAULT_SAFETY (envAt (noon + 7200000)) ''a b c d e'' firstPost"
  by (simp add: similarInWindow_def firstPost_def similarity_refl)
     (simp add: envAt_def DEFAULT_SAFETY_def dayMs_def)

lemma secondPost_similar:
  "similarInWindow DEFAULT_SAFETY (envAt (noon + 7200000)) ''a b c d e'' secondPost"
  by (simp add: similarInWindow_def secondPost_def similarity_five_six)
     (simp add: envAt_def DEFAULT_SAFETY_def dayMs_def)

lemma firstPost_similar_to_longer:
  "similarInWindow DEFAULT_SAFETY (envAt (noon + 3600000)) ''a b c d e f'' firstPost"
  by (simp add: similarInWindow_def firstPost_def similarity_six_five)
     (simp add: envAt_def DEFAULT_SAFETY_def dayMs_def)

section \<open>Recorded posts\<close>

lemma hashContent_normalizedForm:
  "normalizedForm a = normalizedForm b \<Longrightarrow> hashContent a = hashContent b"
  by (simp add: hashContent_def normalized_normalizedForm)

lemma recordPost_history:
  "postHistory (recordPost env content tweet media s)
   = filter (\<lambda>h. h_timestamp h > clock env - 30 * dayMs)
       (postHistory s @ [\<lparr>h_id = tweet, h_text = content, h_hash = hashContent content,
                           h_timestamp = clock env, h_mediaIds = media\<rparr>])"
  by (simp add: recordPost_def Let_def dayMs_def)

lemma recordPost_keeps:
  "r \<in> set (postHistory s) \<Longrightarrow> h_timestamp r > clock env - 30 * dayMs \<Longrightarrow>
   r \<in> set (postHistory (recordPost env content tweet media s))"
  by (simp add: recordPost_history)

lemma recordPost_own:
  "\<lparr>h_id = tweet, h_text = content, h_hash = hashContent content,
     h_timestamp = clock env, h_mediaIds = media\<rparr>
   \<in> set (postHistory (recordPost env content tweet media s))"
  by (simp add: recordPost_history dayMs_def)

lemma recordPosts_keeps:
  "r \<in> set (postHistory s) \<Longrightarrow>
   (\<And>p. p \<in> set later \<Longrightarrow> h_timestamp r > clock (fst p) - 30 * dayMs) \<Longrightarrow>
   r \<in> set (postHistory (recordPosts later s))"
proof (induction later arbitrary: s)
  case Nil
  then show ?case by simp
next
  case (Cons p later)
  obtain env content tweet where p: "p = (env, content, tweet)"
    by (cases p) auto
  have "r \<in> set (postHistory (recordPost env content tweet None s))"
    using Cons.prems(1) Cons.prems(2) [of p] p by (simp add: recordPost_keeps)
  then show ?case
    using Cons.IH [of "recordPost env content tweet None s"] Cons.prems(2) p by simp
qed

lemma stored_duplicate:
  assumes "r \<in> set (postHistory s)"
    and "h_hash r = hashContent (h_text r)"
    and "normalizedForm (h_text r) = normalizedForm content"
    and "h_timestamp r > clock env - dedupeWindowDays safety * dayMs"
  shows "(\<exists>ago. DuplicateContent ago \<in> set (errors (fst (checkSafety safety env content s))))
         \<and> \<not> safe (fst (checkSafety safety env content s))"
proof -
  have "duplicateInWindow safety env content r"
    using assms(2,3,4) hashContent_normalizedForm [of "h_text r" content]
    by (simp add: duplicateInWindow_def)
  with assms(1) have "find (duplicateInWindow safety env content) (postHistory s) \<noteq> None"
    by (auto simp: find_None_iff)
  then obtain d where d: "find (duplicateInWindow safety env content) (postHistory s) = Some d"
    by blast
  have mem: "DuplicateContent (timeAgo env (h_timestamp d))
             \<in> set (errors (fst (checkSafety safety env content s)))"
    by (simp add: checkSafety_errors d)
  then have "errors (fst (checkSafety safety env content s)) \<noteq> []"
    by auto
  with mem show ?thesis
    by (auto simp: checkSafety_safe)
qed

lemma hash_world: "hashContent ''World'' = ''7d793037a0760186574b0282f2f435e7''"
  by code_simp

lemma hash_hello: "hashContent ''hello '' = ''5d41402abc4b2a76b9719d911017c592''"
  by code_simp

lemma form_hello: "normalizedForm ''Hello'' = normalizedForm ''hello ''"
  by code_simp

lemma form_cafe: "normalizedForm cafeRecorded = normalizedForm cafeCandidate"
  by code_simp

lemma form_cafe_value:
  "utf8 (normalizedForm cafeCandidate) = ''hello caf'' @ [CHR 0xC3, CHR 0xA9]"
  by code_simp

lemma history_helloThenWorld:
  "postHistory helloThenWorld
   = [\<lparr>h_id = ''2'', h_text = ''World'', h_hash = hashContent ''World'',
       h_timestamp = noon + 40 * dayMs, h_mediaIds = None\<rparr>]"
  by (simp add: helloThenWorld_def recordPost_history)
     (simp add: storeDefaults_def envAt_def dayMs_def)

lemma helloThenWorld_fields:
  "rateLimit helloThenWorld = None" "dailyPostDate helloThenWorld = NoDate"
  by (simp_all add: helloThenWorld_def recordPost_def Let_def storeDefaults_def)

section \<open>Duplicate content\<close>

text \<open>
  Claim C1, as the code has it. The normalized form of a text is its words in lower case
  joined by single spaces. If the history holds an entry that was recorded for a text with
  the normalized form of the candidate (so its hash is the hash of its own text) and
  whose timestamp lies inside the dedupe window, strictly after the instant
  \<open>dedupeWindowDays\<close> days before now, then the verdict of checkSafety holds a
  duplicate-content error and is not safe. A recorded post stays in the history until a
  later post is recorded more than 30 days after it; so with a window of at most 30
  days, a post recorded inside the window with the normalized form of the candidate is
  reported, whatever was recorded after it up to now.
\<close>

theorem duplicate_content_detected:
  "(r \<in> set (postHistory s) \<and> h_hash r = hashContent (h_text r)
      \<and> normalizedForm (h_text r) = normalizedForm content
      \<and> h_timestamp r > clock env - dedupeWindowDays safety * dayMs
    \<longrightarrow> (\<exists>ago. DuplicateContent ago \<in> set (errors (fst (checkSafety safety env content s))))
        \<and> \<not> safe (fst (checkSafety safety env content s)))
   \<and> (dedupeWindowDays safety \<le> 30
      \<and> normalizedForm recorded = normalizedForm content
      \<and> clock recEnv > clock env - dedupeWindowDays safety * dayMs
      \<and> (\<forall>p \<in> set later. clock (fst p) \<le> clock env)
    \<longrightarrow> (\<exists>ago. DuplicateContent ago \<in> set (errors (fst (checkSafety safety env content
               (recordPosts later (recordPost recEnv recorded tweet media s))))))
        \<and> \<not> safe (fst (checkSafety safety env content
               (recordPosts later (recordPost recEnv recorded tweet media s)))))"
proof -
  let ?r0 = "\<lparr>h_id = tweet, h_text = recorded, h_hash = hashContent recorded,
               h_timestamp = clock recEnv, h_mediaIds = media\<rparr>"
  let ?s1 = "recordPosts later (recordPost recEnv recorded tweet media s)"
  have second: "(\<exists>ago. DuplicateContent ago \<in> set (errors (fst (checkSafety safety env content ?s1))))
        \<and> \<not> safe (fst (checkSafety safety env content ?s1))"
    if h: "dedupeWindowDays safety \<le> 30
      \<and> normalizedForm recorded = normalizedForm content
      \<and> clock recEnv > clock env - dedupeWindowDays safety * dayMs
      \<and> (\<forall>p \<in> set later. clock (fst p) \<le> clock env)"
  proof -
    have "dedupeWindowDays safety * dayMs \<le> 30 * dayMs"
      using h by (simp add: dayMs_def)
    then have "\<And>p. p \<in> set later \<Longrightarrow> h_timestamp ?r0 > clock (fst p) - 30 * dayMs"
      using h by fastforce
    then have "?r0 \<in> set (postHistory ?s1)"
      by (intro recordPosts_keeps recordPost_own)
    then show ?thesis
      using h by (intro stored_duplicate [of ?r0]) simp_all
  qed
  show ?thesis
    using stored_duplicate [of r s content env safety] second by blast
qed

text \<open>
  Claim C1 as stated fails for a window of more than 30 days. "Hello" is recorded at noon
  and "World" forty days later, which prunes the first entry; an hour after that the
  candidate "hello " has the normalized form of a post recorded inside the window of
  sixty days, and the verdict holds no error.
\<close>

theorem pruned_record_counterexample:
  "helloThenWorld = recordPost (envAt (noon + 40 * dayMs)) ''World'' ''2'' None
       (recordPost (envAt noon) ''Hello'' ''1'' None storeDefaults)
   \<and> normalizedForm ''Hello'' = normalizedForm ''hello ''
   \<and> normalized ''Hello'' = normalized ''hello ''
   \<and> clock (envAt noon)
       > clock (envAt (noon + 40 * dayMs + 3600000)) - dedupeWindowDays sixtyDays * dayMs
   \<and> errors (fst (checkSafety sixtyDays (envAt (noon + 40 * dayMs + 3600000)) ''hello ''
         helloThenWorld)) = []
   \<and> safe (fst (checkSafety sixtyDays (envAt (noon + 40 * dayMs + 3600000)) ''hello ''
         helloThenWorld))"
proof -
  have built: "helloThenWorld = recordPost (envAt (noon + 40 * dayMs)) ''World'' ''2'' None
       (recordPost (envAt noon) ''Hello'' ''1'' None storeDefaults)"
    by (simp add: helloThenWorld_def)
  have inside: "clock (envAt noon)
       > clock (envAt (noon + 40 * dayMs + 3600000)) - dedupeWindowDays sixtyDays * dayMs"
    by (simp add: envAt_def sixtyDays_def dayMs_def)
  have none: "find (duplicateInWindow sixtyDays (envAt (noon + 40 * dayMs + 3600000)) ''hello '')
                (postHistory helloThenWorld) = None"
    by (simp add: history_helloThenWorld duplicateInWindow_def hash_world hash_hello)
  have tags: "countMarked (CHR ''#'') ''hello '' = 0"
    by simp
  have errs: "errors (fst (checkSafety sixtyDays (envAt (noon + 40 * dayMs + 3600000)) ''hello ''
         helloThenWorld)) = []"
    by (simp add: checkSafety_errors none tags helloThenWorld_fields checkDailyReset_fields
          getTodayString_def)
       (simp add: sixtyDays_def DEFAULT_SAFETY_def)
  show ?thesis
    using built form_hello inside errs
    by (simp add: checkSafety_safe normalized_normalizedForm)
qed

text \<open>
  The first end-to-end scenario: "Hello" is recorded at noon, and one minute later the
  candidate "hello " (lower case, a trailing space) is reported as a duplicate. And a
  text with an accented capital and two spaces, recorded at noon and followed by another
  post, is reported two hours later for a candidate that differs from it in letter case,
  in a no-break space at the start, a tab in the middle and a space at the end.
\<close>

theorem duplicate_content_detected_witness:
  "\<lparr>h_id = ''1'', h_text = ''Hello'', h_hash = hashContent ''Hello'', h_timestamp = noon,
     h_mediaIds = None\<rparr>
     \<in> set (postHistory (recordPost (envAt noon) ''Hello'' ''1'' None storeDefaults))
   \<and> normalizedForm ''Hello'' = normalizedForm ''hello ''
   \<and> noon > clock (envAt (noon + 60000)) - dedupeWindowDays DEFAULT_SAFETY * dayMs
   \<and> (\<exists>ago. DuplicateContent ago \<in> set (errors (fst (checkSafety DEFAULT_SAFETY
          (envAt (noon + 60000)) ''hello ''
          (recordPost (envAt noon) ''Hello'' ''1'' None storeDefaults)))))
   \<and> \<not> safe (fst (checkSafety DEFAULT_SAFETY (envAt (noon + 60000)) ''hello ''
          (recordPost (envAt noon) ''Hello'' ''1'' None storeDefaults)))
   \<and> dedupeWindowDays DEFAULT_SAFETY \<le> 30
   \<and> normalizedForm cafeRecorded = normalizedForm cafeCandidate
   \<and> clock (envAt noon)
       > clock (envAt (noon + 7200000)) - dedupeWindowDays DEFAULT_SAFETY * dayMs
   \<and> clock (envAt (noon + 3600000)) \<le> clock (envAt (noon + 7200000))
   \<and> (\<exists>ago. DuplicateContent ago \<in> set (errors (fst (checkSafety DEFAULT_SAFETY
          (envAt (noon + 7200000)) cafeCandidate
          (recordPosts [(envAt (noon + 3600000), ''a b c d e'', ''2'')]
             (recordPost (envAt noon) cafeRecorded ''1'' None storeDefaults))))))
   \<and> \<not> safe (fst (checkSafety DEFAULT_SAFETY (envAt (noon + 7200000)) cafeCandidate
          (recordPosts [(envAt (noon + 3600000), ''a b c d e'', ''2'')]
             (recordPost (envAt noon) cafeRecorded ''1'' None storeDefaults))))"
proof -
  let ?r = "\<lparr>h_id = ''1'', h_text = ''Hello'', h_hash = hashContent ''Hello'',
             h_timestamp = noon, h_mediaIds = None\<rparr>"
  let ?s = "recordPost (envAt noon) ''Hello'' ''1'' None storeDefaults"
  let ?later = "[(envAt (noon + 3600000), ''a b c d e'', ''2'')]"
  have h1: "?r \<in> set (postHistory ?s) \<and> h_hash ?r = hashContent (h_text ?r)
      \<and> normalizedForm (h_text ?r) = normalizedForm ''hello ''
      \<and> h_timestamp ?r > clock (envAt (noon + 60000)) - dedupeWindowDays DEFAULT_SAFETY * dayMs"
    using form_hello
    by (simp add: recordPost_def Let_def storeDefaults_def envAt_def DEFAULT_SAFETY_def dayMs_def)
  have h2: "dedupeWindowDays DEFAULT_SAFETY \<le> 30
      \<and> normalizedForm cafeRecorded = normalizedForm cafeCandidate
      \<and> clock (envAt noon)
          > clock (envAt (noon + 7200000)) - dedupeWindowDays DEFAULT_SAFETY * dayMs
      \<and> (\<forall>p \<in> set ?later. clock (fst p) \<le> clock (envAt (noon + 7200000)))"
    using form_cafe by (simp add: envAt_def DEFAULT_SAFETY_def dayMs_def)
  show ?thesis
    using duplicate_content_detected [where r = ?r and s = ?s and content = "''hello ''"
        and env = "envAt (noon + 60000)" and safety = DEFAULT_SAFETY] h1
      duplicate_content_detected [where safety = DEFAULT_SAFETY and recorded = cafeRecorded
        and content = cafeCandidate and recEnv = "envAt noon" and env = "envAt (noon + 7200000)"
        and later = ?later and tweet = "''1''" and media = None and s = storeDefaults] h2
    by simp
qed

section \<open>Daily quota\<close>

text \<open>
  Claim C3. With the daily count read after the lazy rollover: a count of at least
  \<open>maxPostsPerDay\<close> puts the daily-limit error into the verdict; a count of at least
  \<open>maxPostsPerDay - 2\<close> and below \<open>maxPostsPerDay\<close> puts the approaching-limit
  warning there and no daily-limit error, so that the verdict is safe exactly when the
  other three error rules (rate limit, duplicate, hashtags) are silent.
\<close>

theorem daily_quota_boundary:
  "(dailyPostCount (checkDailyReset env s) \<ge> maxPostsPerDay safety
      \<longrightarrow> DailyLimitReached (maxPostsPerDay safety)
            \<in> set (errors (fst (checkSafety safety env content s))))
   \<and> (maxPostsPerDay safety - 2 \<le> dailyPostCount (checkDailyReset env s)
        \<and> dailyPostCount (checkDailyReset env s) < maxPostsPerDay safety
      \<longrightarrow> ApproachingDailyLimit (dailyPostCount (checkDailyReset env s)) (maxPostsPerDay safety)
            \<in> set (warnings (fst (checkSafety safety env content s)))
          \<and> (\<forall>m. DailyLimitReached m \<notin> set (errors (fst (checkSafety safety env content s))))
          \<and> (safe (fst (checkSafety safety env content s))
               = (\<not> isExhausted env s
                  \<and> find (duplicateInWindow safety env content) (postHistory s) = None
                  \<and> countMarked (CHR ''#'') content \<le> 5)))"
  by (auto simp: checkSafety_errors checkSafety_warnings checkSafety_safe isExhausted_def
           split: option.splits)

theorem daily_quota_boundary_witness:
  "dailyPostCount (checkDailyReset (envAt noon)
       (storeDefaults\<lparr>dailyPostCount := 8, dailyPostDate := IsoDate 0\<rparr>))
     \<ge> maxPostsPerDay DEFAULT_SAFETY
   \<and> DailyLimitReached 8 \<in> set (errors (fst (checkSafety DEFAULT_SAFETY (envAt noon) ''Hi''
         (storeDefaults\<lparr>dailyPostCount := 8, dailyPostDate := IsoDate 0\<rparr>))))
   \<and> dailyPostCount (checkDailyReset (envAt noon)
       (storeDefaults\<lparr>dailyPostCount := 7, dailyPostDate := IsoDate 0\<rparr>)) = 7
   \<and> ApproachingDailyLimit 7 8 \<in> set (warnings (fst (checkSafety DEFAULT_SAFETY (envAt noon) ''Hi''
         (storeDefaults\<lparr>dailyPostCount := 7, dailyPostDate := IsoDate 0\<rparr>))))
   \<and> safe (fst (checkSafety DEFAULT_SAFETY (envAt noon) ''Hi''
         (storeDefaults\<lparr>dailyPostCount := 7, dailyPostDate := IsoDate 0\<rparr>)))"
proof -
  let ?s8 = "storeDefaults\<lparr>dailyPostCount := 8, dailyPostDate := IsoDate 0\<rparr>"
  let ?s7 = "storeDefaults\<lparr>dailyPostCount := 7, dailyPostDate := IsoDate 0\<rparr>"
  have today: "getTodayString (envAt noon) = IsoDate 0"
    by (simp add: getTodayString_def envAt_def noon_def dayMs_def)
  have c8: "dailyPostCount (checkDailyReset (envAt noon) ?s8) = 8"
    by (simp add: checkDailyReset_fields today storeDefaults_def)
  have c7: "dailyPostCount (checkDailyReset (envAt noon) ?s7) = 7"
    by (simp add: checkDailyReset_fields today storeDefaults_def)
  have quiet: "\<not> isExhausted (envAt noon) ?s7
               \<and> find (duplicateInWindow DEFAULT_SAFETY (envAt noon) ''Hi'') (postHistory ?s7) = None
               \<and> countMarked (CHR ''#'') ''Hi'' \<le> 5"
    by (simp add: isExhausted_def storeDefaults_def)
  show ?thesis
    using daily_quota_boundary [where env = "envAt noon" and s = ?s8 and safety = DEFAULT_SAFETY
          and content = "''Hi''"]
      daily_quota_boundary [where env = "envAt noon" and s = ?s7 and safety = DEFAULT_SAFETY
          and content = "''Hi''"] c8 c7 quiet
    by (simp add: DEFAULT_SAFETY_def)
qed

section \<open>Jitter\<close>




section \<open>Rate-limit cooldown\<close>

text \<open>
  Claim C6, as the code has it. The verdict of checkSafety holds the rate-limit error iff
  a rate-limit state is stored with nothing remaining and a reset instant strictly after
  now. In that case calculateDelay gives the reason "Rate limit cooldown" whatever the
  settings, the delay before jitter is at least the time to the reset, and so is the
  returned delay when the jitter added is not negative: the random value is at least
  zero, and jitter is disabled or its minutes are at least zero.
\<close>

theorem rate_limit_cooldown:
  "((\<exists>t. RateLimitExceeded t \<in> set (errors (fst (checkSafety safety env content s))))
      = (\<exists>rl. rateLimit s = Some rl \<and> remaining rl = 0 \<and> resetAt rl > clock env))
   \<and> (rateLimit s = Some rl \<and> remaining rl = 0 \<and> resetAt rl > clock env \<longrightarrow>
        reason (calculateDelay safety env customJitter s) = Some ''Rate limit cooldown''
        \<and> real_of_int (resetAt rl - clock env) \<le> baseDelay safety env s
        \<and> (0 \<le> mathRandom env \<and> (enableJitter safety \<longrightarrow> 0 \<le> jitterOf safety customJitter) \<longrightarrow>
             real_of_int (resetAt rl - clock env)
               \<le> delayMs (calculateDelay safety env customJitter s)))"
proof -
  have second: "reason (calculateDelay safety env customJitter s) = Some ''Rate limit cooldown''
        \<and> real_of_int (resetAt rl - clock env) \<le> baseDelay safety env s
        \<and> (0 \<le> mathRandom env \<and> (enableJitter safety \<longrightarrow> 0 \<le> jitterOf safety customJitter) \<longrightarrow>
             real_of_int (resetAt rl - clock env)
               \<le> delayMs (calculateDelay safety env customJitter s))"
    if h: "rateLimit s = Some rl \<and> remaining rl = 0 \<and> resetAt rl > clock env"
  proof -
    have ex: "isExhausted env s"
      using h by (simp add: isExhausted_def)
    have cd: "cooldownRemaining env s = real_of_int (resetAt rl - clock env)"
      using h by (simp add: cooldownRemaining_def)
    have base: "real_of_int (resetAt rl - clock env) \<le> baseDelay safety env s"
      using cooldown_le_baseDelay [of env s safety] cd by simp
    have jit: "real_of_int (resetAt rl - clock env)
               \<le> delayMs (calculateDelay safety env customJitter s)"
      if g: "0 \<le> mathRandom env \<and> (enableJitter safety \<longrightarrow> 0 \<le> jitterOf safety customJitter)"
    proof (cases "enableJitter safety \<and> 0 < baseDelay safety env s")
      case True
      then have "0 \<le> jitterMsOf (mathRandom env) (jitterOf safety customJitter)"
        using g by (intro jitterMsOf_nonneg) simp_all
      then have "baseDelay safety env s
                 \<le> addNumbers (baseDelay safety env s)
                      (jitterMsOf (mathRandom env) (jitterOf safety customJitter))"
        using True by (intro addNumbers_lower) simp_all
      then show ?thesis
        using True base by (simp add: calculateDelay_delayMs)
    next
      case False
      then show ?thesis
        using base by (auto simp: calculateDelay_delayMs)
    qed
    show ?thesis
      using calculateDelay_reason_exhausted [OF ex] base jit by blast
  qed
  show ?thesis
    using rateLimit_error_iff [of safety env content s] second by blast
qed

text \<open>
  Claim C6 as stated fails for a negative \<open>maxJitterMinutes\<close>, a setting the code
  takes unchecked: ten minutes before the reset, with the random value one half and
  minus 30 minutes of jitter, the returned delay is 300000 milliseconds below zero.
\<close>

theorem negative_jitter_counterexample:
  "rateLimit (storeDefaults\<lparr>rateLimit := Some \<lparr>remaining = 0, limit = 100, resetAt = noon + 600000\<rparr>\<rparr>)
     = Some \<lparr>remaining = 0, limit = 100, resetAt = noon + 600000\<rparr>
   \<and> noon + 600000 > clock (envAt noon)
   \<and> delayMs (calculateDelay (DEFAULT_SAFETY\<lparr>maxJitterMinutes := - 30\<rparr>) (envAt noon) None
        (storeDefaults\<lparr>rateLimit := Some \<lparr>remaining = 0, limit = 100, resetAt = noon + 600000\<rparr>\<rparr>))
      = - 300000
   \<and> \<not> real_of_int (noon + 600000 - clock (envAt noon))
        \<le> delayMs (calculateDelay (DEFAULT_SAFETY\<lparr>maxJitterMinutes := - 30\<rparr>) (envAt noon) None
            (storeDefaults\<lparr>rateLimit := Some \<lparr>remaining = 0, limit = 100, resetAt = noon + 600000\<rparr>\<rparr>))"
proof -
  have q: "quietRemaining (DEFAULT_SAFETY\<lparr>maxJitterMinutes := - 30\<rparr>) (envAt noon) = 0"
    by (simp add: quietRemaining_def isQuietHours_def getHours_def envAt_def noon_def dayMs_def
          DEFAULT_SAFETY_def)
  show ?thesis
    by (simp add: calculateDelay_delayMs baseDelay_cooling_down q jitterOf_def)
       (simp add: DEFAULT_SAFETY_def envAt_def storeDefaults_def half_of_minus_thirty_minutes)
qed

text \<open>
  The theorem under the default settings, ten minutes before the reset.
\<close>

theorem rate_limit_cooldown_witness:
  "rateLimit (storeDefaults\<lparr>rateLimit := Some \<lparr>remaining = 0, limit = 100, resetAt = noon + 600000\<rparr>\<rparr>)
     = Some \<lparr>remaining = 0, limit = 100, resetAt = noon + 600000\<rparr>
   \<and> noon + 600000 > clock (envAt noon)
   \<and> 0 \<le> mathRandom (envAt noon)
   \<and> 0 \<le> jitterOf DEFAULT_SAFETY None
   \<and> (\<exists>t. RateLimitExceeded t \<in> set (errors (fst (checkSafety DEFAULT_SAFETY (envAt noon) ''Hi''
        (storeDefaults\<lparr>rateLimit := Some \<lparr>remaining = 0, limit = 100, resetAt = noon + 600000\<rparr>\<rparr>)))))
   \<and> reason (calculateDelay DEFAULT_SAFETY (envAt noon) None
        (storeDefaults\<lparr>rateLimit := Some \<lparr>remaining = 0, limit = 100, resetAt = noon + 600000\<rparr>\<rparr>))
      = Some ''Rate limit cooldown''
   \<and> (600000 :: real)
      \<le> delayMs (calculateDelay DEFAULT_SAFETY (envAt noon) None
          (storeDefaults\<lparr>rateLimit := Some \<lparr>remaining = 0, limit = 100, resetAt = noon + 600000\<rparr>\<rparr>))"
proof -
  let ?rl = "\<lparr>remaining = 0, limit = 100, resetAt = noon + 600000\<rparr>"
  let ?s = "storeDefaults\<lparr>rateLimit := Some ?rl\<rparr>"
  have h: "rateLimit ?s = Some ?rl \<and> remaining ?rl = 0 \<and> resetAt ?rl > clock (envAt noon)"
    by (simp add: envAt_def)
  have g: "0 \<le> mathRandom (envAt noon) \<and> 0 \<le> jitterOf DEFAULT_SAFETY None"
    by (simp add: envAt_def jitterOf_def DEFAULT_SAFETY_def)
  show ?thesis
    using rate_limit_cooldown [where safety = DEFAULT_SAFETY and env = "envAt noon"
        and content = "''Hi''" and s = ?s and rl = ?rl and customJitter = None] h g
    by (auto simp: envAt_def)
qed

section \<open>Failures of the Publisher\<close>

text \<open>
  Claim C7, as the code has it. Let a post reach the Publisher and the Publisher fail. If
  the error has the code 429 or is marked as a rate-limit error, post throws nothing: it
  returns the blocked verdict "Rate limit exceeded" and stores a rate-limit state with
  nothing remaining and the reset instant the error reports, or a quarter of an hour from
  now when it reports none. For every other error post throws that very error and
  returns no verdict; the handler updates nothing, so the store is the one the Publisher
  was called with: the store of the caller for a forced post, and that store after the
  daily rollover of the safety check otherwise. History, last post time and, for the
  other errors, the rate-limit state are those of the caller, and the whole store is
  when the post is forced or the stored date is today.
\<close>

theorem post_error_handling:
  assumes "reachesPublisher safety env options s"
    and "client (tweetDataOf options) = Failed err"
  shows "(err_code err = Some 429 \<or> err_rateLimitError err \<longrightarrow>
            post safety client env options s =
              (Inr (emptyResult\<lparr>success := False, blocked := Some True,
                     blockReason := Some (ReasonText ''Rate limit exceeded''),
                     rateLimitRemaining := Some 0,
                     rateLimitReset := Some (reportedReset env err)\<rparr>),
               (if o_force options then s else checkDailyReset env s)
                 \<lparr>rateLimit := Some \<lparr>remaining = 0, limit = reportedLimit err,
                                      resetAt = reportedReset env err\<rparr>\<rparr>))
         \<and> (\<not> (err_code err = Some 429 \<or> err_rateLimitError err) \<longrightarrow>
              post safety client env options s =
                (Inl err, if o_force options then s else checkDailyReset env s)
              \<and> rateLimit (snd (post safety client env options s)) = rateLimit s
              \<and> (o_force options \<or> dailyPostDate s = getTodayString env \<longrightarrow>
                   snd (post safety client env options s) = s))
         \<and> postHistory (snd (post safety client env options s)) = postHistory s
         \<and> lastPostAt (snd (post safety client env options s)) = lastPostAt s"
proof -
  have same: "dailyPostDate s = getTodayString env \<Longrightarrow> checkDailyReset env s = s"
    by (simp add: checkDailyReset_def)
  show ?thesis
    using assms same
    by (auto simp: post_reaching submit_failed checkDailyReset_fields)
qed

text \<open>
  Claim C7 as stated fails for an unforced post on a store whose date is stale: the safety
  check has run the daily rollover before the Publisher is called, so a server error at
  noon leaves the count of five of the day before reset to zero under the new date.
\<close>

theorem rollover_before_failure_counterexample:
  "reachesPublisher DEFAULT_SAFETY (envAt (dayMs + noon)) (postHi False)
     (storeDefaults\<lparr>dailyPostCount := 5, dailyPostDate := IsoDate 0\<rparr>)
   \<and> failing serverError (tweetDataOf (postHi False)) = Failed serverError
   \<and> \<not> (err_code serverError = Some 429 \<or> err_rateLimitError serverError)
   \<and> post DEFAULT_SAFETY (failing serverError) (envAt (dayMs + noon)) (postHi False)
        (storeDefaults\<lparr>dailyPostCount := 5, dailyPostDate := IsoDate 0\<rparr>)
       = (Inl serverError, storeDefaults\<lparr>dailyPostCount := 0, dailyPostDate := IsoDate 1\<rparr>)
   \<and> snd (post DEFAULT_SAFETY (failing serverError) (envAt (dayMs + noon)) (postHi False)
        (storeDefaults\<lparr>dailyPostCount := 5, dailyPostDate := IsoDate 0\<rparr>))
       \<noteq> storeDefaults\<lparr>dailyPostCount := 5, dailyPostDate := IsoDate 0\<rparr>"
proof -
  let ?s = "storeDefaults\<lparr>dailyPostCount := 5, dailyPostDate := IsoDate 0\<rparr>"
  have f: "failing serverError (tweetDataOf (postHi False)) = Failed serverError"
    by (simp add: failing_def)
  have k: "\<not> (err_code serverError = Some 429 \<or> err_rateLimitError serverError)"
    "\<not> o_force (postHi False)"
    by (simp_all add: serverError_def postHi_def)
  have p: "post DEFAULT_SAFETY (failing serverError) (envAt (dayMs + noon)) (postHi False) ?s
           = (Inl serverError, storeDefaults\<lparr>dailyPostCount := 0, dailyPostDate := IsoDate 1\<rparr>)"
    using k by (simp add: post_reaching [OF stale_store_reaches]
          submit_failed [where client = "failing serverError", OF f] stale_store_rollover)
  have ne: "storeDefaults\<lparr>dailyPostCount := 0, dailyPostDate := IsoDate 1\<rparr> \<noteq> ?s"
    by (simp add: storeDefaults_def)
  show ?thesis
    using stale_store_reaches f k(1) p ne by simp
qed

text \<open>
  An unforced post at noon that meets a rate-limit error, a forced one that meets a
  server error, and an unforced one on a stale store that meets a server error.
\<close>

theorem post_error_handling_witness:
  "reachesPublisher DEFAULT_SAFETY (envAt noon) (postHi False) storeDefaults
   \<and> failing rateLimited (tweetDataOf (postHi False)) = Failed rateLimited
   \<and> (err_code rateLimited = Some 429 \<or> err_rateLimitError rateLimited)
   \<and> post DEFAULT_SAFETY (failing rateLimited) (envAt noon) (postHi False) storeDefaults
       = (Inr (emptyResult\<lparr>success := False, blocked := Some True,
                 blockReason := Some (ReasonText ''Rate limit exceeded''),
                 rateLimitRemaining := Some 0, rateLimitReset := Some 50000000\<rparr>),
          storeDefaults\<lparr>dailyPostDate := IsoDate 0,
            rateLimit := Some \<lparr>remaining = 0, limit = 300, resetAt = 50000000\<rparr>\<rparr>)
   \<and> reachesPublisher DEFAULT_SAFETY (envAt noon) (postHi True) storeDefaults
   \<and> failing serverError (tweetDataOf (postHi True)) = Failed serverError
   \<and> \<not> (err_code serverError = Some 429 \<or> err_rateLimitError serverError)
   \<and> post DEFAULT_SAFETY (failing serverError) (envAt noon) (postHi True) storeDefaults
       = (Inl serverError, storeDefaults)
   \<and> reachesPublisher DEFAULT_SAFETY (envAt (dayMs + noon)) (postHi False)
        (storeDefaults\<lparr>dailyPostCount := 5, dailyPostDate := IsoDate 0\<rparr>)
   \<and> failing serverError (tweetDataOf (postHi False)) = Failed serverError
   \<and> post DEFAULT_SAFETY (failing serverError) (envAt (dayMs + noon)) (postHi False)
        (storeDefaults\<lparr>dailyPostCount := 5, dailyPostDate := IsoDate 0\<rparr>)
       = (Inl serverError, storeDefaults\<lparr>dailyPostCount := 0, dailyPostDate := IsoDate 1\<rparr>)"
proof -
  have r2: "reachesPublisher DEFAULT_SAFETY (envAt noon) (postHi True) storeDefaults"
    by (simp add: reachesPublisher_def postHi_def)
  have f1: "failing rateLimited (tweetDataOf (postHi False)) = Failed rateLimited"
    and f2: "failing serverError (tweetDataOf (postHi True)) = Failed serverError"
    and f3: "failing serverError (tweetDataOf (postHi False)) = Failed serverError"
    by (simp_all add: failing_def)
  have rl: "reportedReset (envAt noon) rateLimited = 50000000" "reportedLimit rateLimited = 300"
    by (simp_all add: reportedReset_def reportedLimit_def rateLimited_def)
  have reset: "checkDailyReset (envAt noon) storeDefaults = storeDefaults\<lparr>dailyPostDate := IsoDate 0\<rparr>"
    by (simp add: checkDailyReset_def today_at_noon storeDefaults_def)
  have k: "err_code rateLimited = Some 429" "err_code serverError \<noteq> Some 429"
    "\<not> err_rateLimitError serverError" "\<not> o_force (postHi False)" "o_force (postHi True)"
    by (simp_all add: rateLimited_def serverError_def postHi_def)
  have one: "post DEFAULT_SAFETY (failing rateLimited) (envAt noon) (postHi False) storeDefaults
       = (Inr (emptyResult\<lparr>success := False, blocked := Some True,
                 blockReason := Some (ReasonText ''Rate limit exceeded''),
                 rateLimitRemaining := Some 0, rateLimitReset := Some 50000000\<rparr>),
          storeDefaults\<lparr>dailyPostDate := IsoDate 0,
            rateLimit := Some \<lparr>remaining = 0, limit = 300, resetAt = 50000000\<rparr>\<rparr>)"
    using post_error_handling [where client = "failing rateLimited", OF hi_reaches f1]
    by (simp add: rl reset k)
  have two: "post DEFAULT_SAFETY (failing serverError) (envAt noon) (postHi True) storeDefaults
       = (Inl serverError, storeDefaults)"
    using post_error_handling [where client = "failing serverError", OF r2 f2]
    by (simp add: k)
  have three: "post DEFAULT_SAFETY (failing serverError) (envAt (dayMs + noon)) (postHi False)
        (storeDefaults\<lparr>dailyPostCount := 5, dailyPostDate := IsoDate 0\<rparr>)
       = (Inl serverError, storeDefaults\<lparr>dailyPostCount := 0, dailyPostDate := IsoDate 1\<rparr>)"
    using post_error_handling [where client = "failing serverError", OF stale_store_reaches f3]
    by (simp add: k stale_store_rollover)
  show ?thesis
    using hi_reaches r2 stale_store_reaches f1 f2 f3 k one two three by simp
qed

section \<open>Posts that do not publish\<close>

text \<open>
  Claim C10. An unforced post whose verdict is not safe, or whose computed delay is above
  zero, returns a blocked or a delayed result and leaves the store as the daily rollover
  leaves it: history, last post time and rate-limit state are those of before, the daily
  count is the one of before when the stored date is today and zero otherwise, and
  nothing at all changes when the stored date is today. The Publisher plays no part.
\<close>

theorem post_not_publishing_keeps_state:
  assumes "\<not> o_force options"
    and "\<not> safe (fst (checkSafety safety env (o_text options) s))
         \<or> 0 < delayMs (calculateDelay safety env (o_jitterMinutes options)
                  (checkDailyReset env s))"
  shows "snd (post safety client env options s) = checkDailyReset env s
         \<and> postHistory (snd (post safety client env options s)) = postHistory s
         \<and> lastPostAt (snd (post safety client env options s)) = lastPostAt s
         \<and> rateLimit (snd (post safety client env options s)) = rateLimit s
         \<and> dailyPostCount (snd (post safety client env options s))
             = (if dailyPostDate s = getTodayString env then dailyPostCount s else 0)
         \<and> (dailyPostDate s = getTodayString env \<longrightarrow>
              snd (post safety client env options s) = s)
         \<and> (\<exists>res. fst (post safety client env options s) = Inr res \<and> \<not> success res
                \<and> (blocked res = Some True \<or> delayed res = Some True))"
proof -
  have st: "snd (post safety client env options s) = checkDailyReset env s"
    using assms by (auto simp: post_unforced)
  have same: "dailyPostDate s = getTodayString env \<Longrightarrow> checkDailyReset env s = s"
    by (simp add: checkDailyReset_def)
  have res: "\<exists>res. fst (post safety client env options s) = Inr res \<and> \<not> success res
                \<and> (blocked res = Some True \<or> delayed res = Some True)"
    using assms by (auto simp: post_unforced emptyResult_def)
  show ?thesis
    using st same res by (simp add: checkDailyReset_fields)
qed

text \<open>
  A post blocked by the daily limit, and a post delayed because the last one was a minute
  ago.
\<close>

theorem post_not_publishing_keeps_state_witness:
  "\<not> o_force (postHi False)
   \<and> \<not> safe (fst (checkSafety DEFAULT_SAFETY (envAt noon) (o_text (postHi False))
          (storeDefaults\<lparr>dailyPostCount := 8, dailyPostDate := IsoDate 0\<rparr>)))
   \<and> snd (post DEFAULT_SAFETY accepting (envAt noon) (postHi False)
          (storeDefaults\<lparr>dailyPostCount := 8, dailyPostDate := IsoDate 0\<rparr>))
       = storeDefaults\<lparr>dailyPostCount := 8, dailyPostDate := IsoDate 0\<rparr>
   \<and> 0 < delayMs (calculateDelay DEFAULT_SAFETY (envAt noon) (o_jitterMinutes (postHi False))
            (checkDailyReset (envAt noon) (storeDefaults\<lparr>lastPostAt := Some (noon - 60000)\<rparr>)))
   \<and> snd (post DEFAULT_SAFETY accepting (envAt noon) (postHi False)
          (storeDefaults\<lparr>lastPostAt := Some (noon - 60000)\<rparr>))
       = storeDefaults\<lparr>lastPostAt := Some (noon - 60000), dailyPostDate := IsoDate 0\<rparr>
   \<and> postHistory (snd (post DEFAULT_SAFETY accepting (envAt noon) (postHi False)
          (storeDefaults\<lparr>lastPostAt := Some (noon - 60000)\<rparr>))) = []
   \<and> dailyPostCount (snd (post DEFAULT_SAFETY accepting (envAt noon) (postHi False)
          (storeDefaults\<lparr>lastPostAt := Some (noon - 60000)\<rparr>))) = 0"
proof -
  let ?s8 = "storeDefaults\<lparr>dailyPostCount := 8, dailyPostDate := IsoDate 0\<rparr>"
  let ?s1 = "storeDefaults\<lparr>lastPostAt := Some (noon - 60000)\<rparr>"
  have nf: "\<not> o_force (postHi False)"
    by (simp add: postHi_def)
  have unsafe: "\<not> safe (fst (checkSafety DEFAULT_SAFETY (envAt noon) (o_text (postHi False)) ?s8))"
    by (simp add: checkSafety_safe checkSafety_errors checkDailyReset_fields today_at_noon)
       (simp add: storeDefaults_def DEFAULT_SAFETY_def)
  have delay: "0 < delayMs (calculateDelay DEFAULT_SAFETY (envAt noon)
                  (o_jitterMinutes (postHi False)) (checkDailyReset (envAt noon) ?s1))"
    by (simp add: calculateDelay_delayMs baseDelay_checkDailyReset baseDelay_posted_a_minute_ago)
       (simp add: jitterOf_def postHi_def DEFAULT_SAFETY_def envAt_def half_of_thirty_minutes)
  have r8: "checkDailyReset (envAt noon) ?s8 = ?s8"
    by (simp add: checkDailyReset_def today_at_noon storeDefaults_def)
  have r1: "checkDailyReset (envAt noon) ?s1
            = storeDefaults\<lparr>lastPostAt := Some (noon - 60000), dailyPostDate := IsoDate 0\<rparr>"
    by (simp add: checkDailyReset_def today_at_noon storeDefaults_def)
  have blockedCase: "snd (post DEFAULT_SAFETY accepting (envAt noon) (postHi False) ?s8) = ?s8"
    using post_not_publishing_keeps_state [where client = accepting, OF nf disjI1 [OF unsafe]]
    by (simp add: r8)
  have delayedCase: "snd (post DEFAULT_SAFETY accepting (envAt noon) (postHi False) ?s1)
            = storeDefaults\<lparr>lastPostAt := Some (noon - 60000), dailyPostDate := IsoDate 0\<rparr>"
    using post_not_publishing_keeps_state [where client = accepting, OF nf disjI2 [OF delay]]
    by (simp add: r1)
  have fields: "postHistory (storeDefaults\<lparr>lastPostAt := Some (noon - 60000),
                   dailyPostDate := IsoDate 0\<rparr>) = []"
    "dailyPostCount (storeDefaults\<lparr>lastPostAt := Some (noon - 60000),
                   dailyPostDate := IsoDate 0\<rparr>) = 0"
    by (simp_all add: storeDefaults_def)
  show ?thesis
    using nf unsafe delay blockedCase delayedCase fields by simp
qed

section \<open>The daily counter on a forced post\<close>

text \<open>
  Claim C9 does not hold of the code: recordPost adds one to the stored count without the
  rollover check that checkSafety and getStats run before they read it. A forced post a
  minute after midnight, on a store that counted five posts the day before, leaves the
  count at six under yesterday's date where the claim expects one under today's; the
  next rollover check then resets the count to zero, and the post is not counted at all.
  The unforced post at noon of that day goes through the safety check, which runs the
  rollover, and leaves a count of one under today's date.
\<close>

theorem forced_post_skips_rollover:
  "getTodayString (envAt (dayMs + 60000)) = IsoDate 1
   \<and> dailyPostCount (snd (post DEFAULT_SAFETY accepting (envAt (dayMs + 60000)) (postHi True)
        (storeDefaults\<lparr>dailyPostCount := 5, dailyPostDate := IsoDate 0\<rparr>))) = 6
   \<and> dailyPostDate (snd (post DEFAULT_SAFETY accepting (envAt (dayMs + 60000)) (postHi True)
        (storeDefaults\<lparr>dailyPostCount := 5, dailyPostDate := IsoDate 0\<rparr>))) = IsoDate 0
   \<and> dailyPostCount (checkDailyReset (envAt (dayMs + 60000))
        (snd (post DEFAULT_SAFETY accepting (envAt (dayMs + 60000)) (postHi True)
          (storeDefaults\<lparr>dailyPostCount := 5, dailyPostDate := IsoDate 0\<rparr>)))) = 0
   \<and> dailyPostCount (snd (post DEFAULT_SAFETY accepting (envAt (dayMs + noon)) (postHi False)
        (storeDefaults\<lparr>dailyPostCount := 5, dailyPostDate := IsoDate 0\<rparr>))) = 1
   \<and> dailyPostDate (snd (post DEFAULT_SAFETY accepting (envAt (dayMs + noon)) (postHi False)
        (storeDefaults\<lparr>dailyPostCount := 5, dailyPostDate := IsoDate 0\<rparr>))) = IsoDate 1"
proof -
  let ?s = "storeDefaults\<lparr>dailyPostCount := 5, dailyPostDate := IsoDate 0\<rparr>"
  have t: "getTodayString (envAt (dayMs + 60000)) = IsoDate 1"
    "getTodayString (envAt (dayMs + noon)) = IsoDate 1"
    by (simp_all add: getTodayString_def envAt_def dayMs_def noon_def)
  have f: "o_force (postHi True)" "accepting (tweetDataOf (postHi True)) = Tweeted ''42''"
    "\<not> o_force (postHi False)" "accepting (tweetDataOf (postHi False)) = Tweeted ''42''"
    "o_text (postHi False) = ''Hi''" "o_jitterMinutes (postHi False) = None"
    by (simp_all add: postHi_def accepting_def)
  have forced: "snd (post DEFAULT_SAFETY accepting (envAt (dayMs + 60000)) (postHi True) ?s)
      = recordPost (envAt (dayMs + 60000)) (o_text (postHi True)) ''42''
          (o_mediaIds (postHi True)) ?s"
    by (simp add: post_forced f submit_tweeted [where client = accepting, OF f(2)])
  have safeHi: "safe (fst (checkSafety DEFAULT_SAFETY (envAt (dayMs + noon)) ''Hi'' ?s))"
    by (simp add: checkSafety_safe checkSafety_errors checkDailyReset_fields t)
       (simp add: storeDefaults_def DEFAULT_SAFETY_def)
  have clear: "baseDelay DEFAULT_SAFETY (envAt (dayMs + noon)) ?s = 0"
    by (simp add: next_noon_clear cooldownRemaining_def intervalRemaining_def storeDefaults_def)
  have reach: "reachesPublisher DEFAULT_SAFETY (envAt (dayMs + noon)) (postHi False) ?s"
    using safeHi
    by (simp add: reachesPublisher_def f checkSafety_store calculateDelay_delayMs
          baseDelay_checkDailyReset clear)
  have unforced: "snd (post DEFAULT_SAFETY accepting (envAt (dayMs + noon)) (postHi False) ?s)
      = recordPost (envAt (dayMs + noon)) (o_text (postHi False)) ''42''
          (o_mediaIds (postHi False)) (checkDailyReset (envAt (dayMs + noon)) ?s)"
    by (simp add: post_reaching [OF reach] f submit_tweeted [where client = accepting, OF f(4)])
  show ?thesis
    unfolding forced unforced
    by (simp add: t recordPost_counter checkDailyReset_fields storeDefaults_def)
qed

section \<open>Similar content\<close>

text \<open>
  Claim C2, as the code has it. The verdict holds the near-duplicate warning, and the
  suggestion to rephrase, iff the first entry of the history that is similar to the
  candidate (inside the dedupe window, similarity above 0.8) carries a hash other than
  the candidate's. The search stops at the first similar entry whatever its hash.
\<close>

theorem near_duplicate_first_similar:
  "((\<exists>p. VerySimilar p \<in> set (warnings (fst (checkSafety safety env content s))))
      = (\<exists>i<length (postHistory s).
           similarInWindow safety env content (postHistory s ! i)
           \<and> h_hash (postHistory s ! i) \<noteq> hashContent content
           \<and> (\<forall>j<i. \<not> similarInWindow safety env content (postHistory s ! j))))
   \<and> ((ConsiderRephrasing \<in> set (suggestions (fst (checkSafety safety env content s))))
      = (\<exists>i<length (postHistory s).
           similarInWindow safety env content (postHistory s ! i)
           \<and> h_hash (postHistory s ! i) \<noteq> hashContent content
           \<and> (\<forall>j<i. \<not> similarInWindow safety env content (postHistory s ! j))))"
proof -
  let ?found = "find (similarInWindow safety env content) (postHistory s)"
  have idx: "(\<exists>i<length (postHistory s).
           similarInWindow safety env content (postHistory s ! i)
           \<and> h_hash (postHistory s ! i) \<noteq> hashContent content
           \<and> (\<forall>j<i. \<not> similarInWindow safety env content (postHistory s ! j)))
        = (case ?found of None \<Rightarrow> False | Some m \<Rightarrow> h_hash m \<noteq> hashContent content)"
    by (rule first_match)
  have w: "(\<exists>p. VerySimilar p \<in> set (warnings (fst (checkSafety safety env content s))))
        = (case ?found of None \<Rightarrow> False | Some m \<Rightarrow> h_hash m \<noteq> hashContent content)"
    by (cases ?found) (auto simp: checkSafety_warnings split: option.splits if_splits)
  have g: "(ConsiderRephrasing \<in> set (suggestions (fst (checkSafety safety env content s))))
        = (case ?found of None \<Rightarrow> False | Some m \<Rightarrow> h_hash m \<noteq> hashContent content)"
    by (cases ?found) (auto simp: checkSafety_suggestions split: option.splits if_splits)
  show ?thesis
    unfolding idx using w g by simp
qed

text \<open>
  Claim C2 as stated fails when an entry with the hash of the candidate comes first.
  After "a b c d e" and, an hour later, "a b c d e f" were recorded, the candidate
  "a b c d e" is checked an hour after that: the second entry lies in the window, has
  similarity five sixths and another hash, and yet the verdict holds neither warning nor
  suggestion, because the search stopped at the first entry.
\<close>

theorem same_hash_first_counterexample:
  "postHistory twoPosted = [firstPost, secondPost]
   \<and> h_timestamp secondPost
       > clock (envAt (noon + 7200000)) - dedupeWindowDays DEFAULT_SAFETY * dayMs
   \<and> similarity ''a b c d e'' (h_text secondPost) = Some (5 / 6)
   \<and> (5 / 6 :: real) > 0.8
   \<and> similarInWindow DEFAULT_SAFETY (envAt (noon + 7200000)) ''a b c d e'' secondPost
   \<and> h_hash secondPost \<noteq> hashContent ''a b c d e''
   \<and> warnings (fst (checkSafety DEFAULT_SAFETY (envAt (noon + 7200000)) ''a b c d e''
         twoPosted)) = []
   \<and> suggestions (fst (checkSafety DEFAULT_SAFETY (envAt (noon + 7200000)) ''a b c d e''
         twoPosted)) = []"
proof -
  have found: "find (similarInWindow DEFAULT_SAFETY (envAt (noon + 7200000)) ''a b c d e'')
                 (postHistory twoPosted) = Some firstPost"
    by (simp add: history_twoPosted firstPost_similar_to_itself)
  have same: "h_hash firstPost = hashContent ''a b c d e''"
    by (simp add: firstPost_def)
  have plain: "countMarked (CHR ''#'') ''a b c d e'' = 0" "countMarked (CHR ''@'') ''a b c d e'' = 0"
    "\<not> hasUrlShortener ''a b c d e''"
    by (simp_all add: hasUrlShortener_def asciiLower_def)
  have w: "warnings (fst (checkSafety DEFAULT_SAFETY (envAt (noon + 7200000)) ''a b c d e''
         twoPosted)) = []"
    by (simp add: checkSafety_warnings found same plain twoPosted_fields
          two_in_the_afternoon_not_quiet checkDailyReset_fields)
       (simp add: DEFAULT_SAFETY_def envAt_def)
  have g: "suggestions (fst (checkSafety DEFAULT_SAFETY (envAt (noon + 7200000)) ''a b c d e''
         twoPosted)) = []"
    by (simp add: checkSafety_suggestions found same plain)
  have t: "h_timestamp secondPost
       > clock (envAt (noon + 7200000)) - dedupeWindowDays DEFAULT_SAFETY * dayMs"
    by (simp add: secondPost_def envAt_def DEFAULT_SAFETY_def dayMs_def)
  have h: "h_hash secondPost \<noteq> hashContent ''a b c d e''"
    using hashes_differ by (simp add: secondPost_def)
  have sim: "similarity ''a b c d e'' (h_text secondPost) = Some (5 / 6)"
    by (simp add: secondPost_def similarity_five_six)
  show ?thesis
    using history_twoPosted t sim secondPost_similar h w g by simp
qed

text \<open>
  The theorem for the candidate "a b c d e f" an hour after "a b c d e" was recorded.
\<close>

theorem near_duplicate_first_similar_witness:
  "0 < length (postHistory onePosted)
   \<and> similarInWindow DEFAULT_SAFETY (envAt (noon + 3600000)) ''a b c d e f''
        (postHistory onePosted ! 0)
   \<and> h_hash (postHistory onePosted ! 0) \<noteq> hashContent ''a b c d e f''
   \<and> (\<exists>p. VerySimilar p \<in> set (warnings (fst (checkSafety DEFAULT_SAFETY
          (envAt (noon + 3600000)) ''a b c d e f'' onePosted))))
   \<and> ConsiderRephrasing \<in> set (suggestions (fst (checkSafety DEFAULT_SAFETY
          (envAt (noon + 3600000)) ''a b c d e f'' onePosted)))"
proof -
  have a: "0 < length (postHistory onePosted)"
    and b: "similarInWindow DEFAULT_SAFETY (envAt (noon + 3600000)) ''a b c d e f''
              (postHistory onePosted ! 0)"
    and c: "h_hash (postHistory onePosted ! 0) \<noteq> hashContent ''a b c d e f''"
    using firstPost_similar_to_longer hashes_differ
    by (simp_all add: history_onePosted) (simp add: firstPost_def)
  have first: "\<exists>i<length (postHistory onePosted).
           similarInWindow DEFAULT_SAFETY (envAt (noon + 3600000)) ''a b c d e f''
             (postHistory onePosted ! i)
           \<and> h_hash (postHistory onePosted ! i) \<noteq> hashContent ''a b c d e f''
           \<and> (\<forall>j<i. \<not> similarInWindow DEFAULT_SAFETY (envAt (noon + 3600000))
                        ''a b c d e f'' (postHistory onePosted ! j))"
    using a b c by (intro exI [of _ 0]) simp
  show ?thesis
    using near_duplicate_first_similar [where safety = DEFAULT_SAFETY
        and env = "envAt (noon + 3600000)" and content = "''a b c d e f''" and s = onePosted]
      first a b c
    by simp
qed

end
